theory Spec2Isabelle
  imports Main
begin

section \<open>JavaScript values and string primitives\<close>

text \<open>
  The import and persistence code works on untyped values (\<open>any\<close>): spreadsheet cells,
  row objects and records. A value is one of the JavaScript primitives or an array.
  Numbers are the integers together with \<open>NaN\<close>; characters are the code units below 256
  (Latin-1), which covers every character the source names in a literal or a regular
  expression. An object is its list of own properties in insertion order.
\<close>

datatype jsval = Undefined | Null | JBool bool | NaN | Num int | Str string | Arr "jsval list"

type_synonym jsobj = "(string \<times> jsval) list"

text \<open>Property read \<open>o.k\<close>: an absent property reads \<open>undefined\<close>.\<close>

definition fld :: "jsobj \<Rightarrow> string \<Rightarrow> jsval" where
  "fld ob k = (case map_of ob k of None \<Rightarrow> Undefined | Some v \<Rightarrow> v)"

text \<open>Property write \<open>o[k] = v\<close>: an existing property keeps its position, a new one is appended.\<close>

fun setf :: "jsobj \<Rightarrow> string \<Rightarrow> jsval \<Rightarrow> jsobj" where
  "setf [] k v = [(k, v)]"
| "setf ((k', v') # ps) k v = (if k' = k then (k, v) # ps else (k', v') # setf ps k v)"

text \<open>Object spread \<open>{ ...a, ...b }\<close>.\<close>

definition spread :: "jsobj \<Rightarrow> jsobj \<Rightarrow> jsobj" where
  "spread a b = fold (\<lambda>(k, v) acc. setf acc k v) b (fold (\<lambda>(k, v) acc. setf acc k v) a [])"

text \<open>Truthiness, as tested by \<open>if (v)\<close>, \<open>!v\<close> and \<open>v || d\<close>.\<close>

fun truthy :: "jsval \<Rightarrow> bool" where
  "truthy Undefined = False"
| "truthy Null = False"
| "truthy (JBool b) = b"
| "truthy NaN = False"
| "truthy (Num i) = (i \<noteq> 0)"
| "truthy (Str s) = (s \<noteq> [])"
| "truthy (Arr xs) = True"

definition orElse :: "jsval \<Rightarrow> jsval \<Rightarrow> jsval" where
  "orElse v d = (if truthy v then v else d)"

text \<open>Character classes: \<open>[A-Z]\<close>, \<open>[a-z]\<close>, \<open>\d\<close> and the white space of \<open>trim\<close> and \<open>\s\<close>.\<close>

definition isUpperAZ :: "char \<Rightarrow> bool" where
  "isUpperAZ c = (65 \<le> (of_char c :: nat) \<and> (of_char c :: nat) \<le> 90)"

definition isLowerAZ :: "char \<Rightarrow> bool" where
  "isLowerAZ c = (97 \<le> (of_char c :: nat) \<and> (of_char c :: nat) \<le> 122)"

definition isDigit :: "char \<Rightarrow> bool" where
  "isDigit c = (48 \<le> (of_char c :: nat) \<and> (of_char c :: nat) \<le> 57)"

definition isSpace :: "char \<Rightarrow> bool" where
  "isSpace c = ((9 \<le> (of_char c :: nat) \<and> (of_char c :: nat) \<le> 13)
                \<or> (of_char c :: nat) = 32 \<or> (of_char c :: nat) = 160)"

definition lowerChar :: "char \<Rightarrow> char" where
  "lowerChar c = (if isUpperAZ c then char_of ((of_char c :: nat) + 32) else c)"

definition upperChar :: "char \<Rightarrow> char" where
  "upperChar c = (if isLowerAZ c then char_of ((of_char c :: nat) - 32) else c)"

definition toLowerCase :: "string \<Rightarrow> string" where
  "toLowerCase s = map lowerChar s"

definition toUpperCase :: "string \<Rightarrow> string" where
  "toUpperCase s = map upperChar s"

definition trim :: "string \<Rightarrow> string" where
  "trim s = rev (dropWhile isSpace (rev (dropWhile isSpace s)))"

text \<open>\<open>s.includes(k)\<close>: \<open>k\<close> occurs in \<open>s\<close> as a contiguous substring.\<close>

fun startsWith :: "string \<Rightarrow> string \<Rightarrow> bool" where
  "startsWith s [] = True"
| "startsWith [] (k # ks) = False"
| "startsWith (c # cs) (k # ks) = (c = k \<and> startsWith cs ks)"

fun includes_js :: "string \<Rightarrow> string \<Rightarrow> bool" where
  "includes_js [] k = (k = [])"
| "includes_js (c # cs) k = (startsWith (c # cs) k \<or> includes_js cs k)"

text \<open>Decimal rendering of integers, as template literals and \<open>String\<close> produce it.\<close>

definition digitChar :: "nat \<Rightarrow> char" where
  "digitChar d = ''0123456789'' ! d"

function showNat :: "nat \<Rightarrow> string" where
  "showNat n = (if n < 10 then [digitChar n] else showNat (n div 10) @ [digitChar (n mod 10)])"
  by pat_completeness auto
termination
  by (relation "measure id") auto

declare showNat.simps [simp del]

definition showInt :: "int \<Rightarrow> string" where
  "showInt i = (if i < 0 then CHR ''-'' # showNat (nat (- i)) else showNat (nat i))"

text \<open>\<open>xs.join(sep)\<close> on strings, and \<open>s.split(sep)\<close> for a one-character separator.\<close>

fun joinStr :: "string \<Rightarrow> string list \<Rightarrow> string" where
  "joinStr sep [] = []"
| "joinStr sep [x] = x"
| "joinStr sep (x # y # ys) = x @ sep @ joinStr sep (y # ys)"

fun splitOn :: "char \<Rightarrow> string \<Rightarrow> string list" where
  "splitOn sep [] = [[]]"
| "splitOn sep (c # cs) =
     (if c = sep then [] # splitOn sep cs
      else (case splitOn sep cs of [] \<Rightarrow> [[c]] | w # ws \<Rightarrow> (c # w) # ws))"

text \<open>
  \<open>String(v)\<close>. An array renders as its elements joined by commas, where \<open>null\<close> and
  \<open>undefined\<close> elements render empty.
\<close>

fun String_js :: "jsval \<Rightarrow> string" where
  "String_js Undefined = ''undefined''"
| "String_js Null = ''null''"
| "String_js (JBool b) = (if b then ''true'' else ''false'')"
| "String_js NaN = ''NaN''"
| "String_js (Num i) = showInt i"
| "String_js (Str s) = s"
| "String_js (Arr xs) =
     joinStr '','' (map (\<lambda>x. if x = Undefined \<or> x = Null then [] else String_js x) xs)"

definition join_js :: "jsval list \<Rightarrow> string" where
  "join_js xs = joinStr '','' (map (\<lambda>x. if x = Undefined \<or> x = Null then [] else String_js x) xs)"

text \<open>
  \<open>Number(v)\<close>. On strings the modelled fragment is the decimal integer literal with an
  optional sign, surrounded by optional white space; the blank string is \<open>0\<close>. Any other
  string is treated as not numeric (\<open>NaN\<close>).
\<close>

fun digitsVal :: "nat \<Rightarrow> string \<Rightarrow> nat" where
  "digitsVal acc [] = acc"
| "digitsVal acc (c # cs) = digitsVal (10 * acc + ((of_char c :: nat) - 48)) cs"

definition parseDigits :: "string \<Rightarrow> jsval" where
  "parseDigits s = (if s \<noteq> [] \<and> list_all isDigit s then Num (int (digitsVal 0 s)) else NaN)"

definition strToNumber :: "string \<Rightarrow> jsval" where
  "strToNumber s =
     (case trim s of
        [] \<Rightarrow> Num 0
      | c # cs \<Rightarrow>
          if c = CHR ''-'' then (case parseDigits cs of Num i \<Rightarrow> Num (- i) | _ \<Rightarrow> NaN)
          else if c = CHR ''+'' then parseDigits cs
          else parseDigits (c # cs))"

fun Number_js :: "jsval \<Rightarrow> jsval" where
  "Number_js Undefined = NaN"
| "Number_js Null = Num 0"
| "Number_js (JBool b) = Num (if b then 1 else 0)"
| "Number_js NaN = NaN"
| "Number_js (Num i) = Num i"
| "Number_js (Str s) = strToNumber s"
| "Number_js (Arr xs) = strToNumber (String_js (Arr xs))"

text \<open>Array read \<open>row[i]\<close>: out of range reads \<open>undefined\<close>.\<close>

definition cellAt :: "jsval list \<Rightarrow> nat \<Rightarrow> jsval" where
  "cellAt row i = (if i < length row then row ! i else Undefined)"

text \<open>\<open>xs.find(p)\<close>: the first element satisfying \<open>p\<close>, or \<open>undefined\<close> (here \<open>None\<close>).\<close>

abbreviation findFirst :: "('a \<Rightarrow> bool) \<Rightarrow> 'a list \<Rightarrow> 'a option" where
  "findFirst p xs \<equiv> List.find p xs"


section \<open>Remote store boundary (services/supabaseService.ts)\<close>

definition tableMap :: "string \<Rightarrow> string option" where
  "tableMap = map_of
     [(''items'', ''items''),
      (''machines'', ''machines''),
      (''locations'', ''locations''),
      (''sectors'', ''sectors''),
      (''divisions'', ''divisions''),
      (''plans'', ''maintenance_plans''),
      (''users'', ''users''),
      (''history'', ''issues''),
      (''breakdowns'', ''breakdowns''),
      (''bomRecords'', ''bom''),
      (''agriOrders'', ''agri_orders''),
      (''irrigationLogs'', ''irrigation_logs''),
      (''forecastPeriods'', ''forecast_periods''),
      (''forecastRecords'', ''forecast_records''),
      (''tasks'', ''maintenance_tasks''),
      (''schedules'', ''maintenance_schedules''),
      (''workOrders'', ''maintenance_work_orders''),
      (''assetTransfers'', ''asset_transfers''),
      (''transferHistory'', ''machine_transfer_history''),
      (''warrantyRecords'', ''warranty_management''),
      (''warrantyReceivings'', ''warranty_receiving_data''),
      (''orgStructures'', ''org_structure''),
      (''failureTypes'', ''failure_types''),
      (''issuePlanPeriods'', ''issue_plan_periods''),
      (''issuePlanEntries'', ''issue_plan_entries'')]"

text \<open>\<open>str.replace(/[A-Z]/g, letter => `_${letter.toLowerCase()}`)\<close>\<close>

definition toSnakeCase :: "string \<Rightarrow> string" where
  "toSnakeCase s = concat (map (\<lambda>c. if isUpperAZ c then [CHR ''_'', lowerChar c] else [c]) s)"

text \<open>
  \<open>str.replace(/([-_][a-z])/g, group => group.toUpperCase().replace('-', '').replace('_', ''))\<close>:
  matches are found left to right and do not overlap.
\<close>

fun toCamelCase :: "string \<Rightarrow> string" where
  "toCamelCase (c # d # rest) =
     (if (c = CHR ''-'' \<or> c = CHR ''_'') \<and> isLowerAZ d
      then remove1 (CHR ''_'') (remove1 (CHR ''-'') (toUpperCase [c, d])) @ toCamelCase rest
      else c # toCamelCase (d # rest))"
| "toCamelCase [c] = [c]"
| "toCamelCase [] = []"

definition listFields :: "string list" where
  "listFields = [''allowedLocationIds'', ''allowedSectorIds'', ''allowedDivisionIds'', ''allowedMenus'']"

definition isArray :: "jsval \<Rightarrow> bool" where
  "isArray v = (case v of Arr xs \<Rightarrow> True | _ \<Rightarrow> False)"

text \<open>The body of the \<open>for (const key in record)\<close> loop of \<open>processRecordToSupabase\<close>.\<close>

definition toSupabaseField :: "string \<Rightarrow> jsval \<Rightarrow> string \<times> jsval" where
  "toSupabaseField key val0 =
     (let colName = toSnakeCase key;
          val1 = (case val0 of
                    Arr xs \<Rightarrow> if key \<in> set listFields then Str (join_js xs) else val0
                  | _ \<Rightarrow> val0);
          val2 = (if val1 = Null \<or> val1 = Undefined \<or> val1 = Str []
                  then (if colName = ''name'' then Str ''Unnamed''
                        else if colName = ''status'' then Str ''Active''
                        else if colName = ''category'' then Str ''General''
                        else val1)
                  else val1)
      in (colName, val2))"

definition processRecordToSupabase :: "jsobj \<Rightarrow> string \<Rightarrow> jsobj" where
  "processRecordToSupabase record tableName =
     (let processed = fold (\<lambda>(key, val) acc.
                              setf acc (fst (toSupabaseField key val)) (snd (toSupabaseField key val)))
                           record []
      in if tableName = ''items'' \<and> \<not> truthy (fld processed ''name'')
         then setf processed ''name'' (Str ''Unnamed Item'')
         else if tableName = ''machines'' \<and> \<not> truthy (fld processed ''status'')
         then setf processed ''status'' (Str ''Working'')
         else processed)"

definition fromSupabaseField :: "string \<Rightarrow> jsval \<Rightarrow> string \<times> jsval" where
  "fromSupabaseField key val =
     (let camelKey = toCamelCase key
      in (camelKey,
          (case val of
             Str s \<Rightarrow> if camelKey \<in> set listFields
                       then (if s \<noteq> [] then Arr (map Str (splitOn (CHR '','') s)) else Arr [])
                       else val
           | _ \<Rightarrow> val)))"

definition processRecordFromSupabase :: "jsobj \<Rightarrow> jsobj" where
  "processRecordFromSupabase record =
     fold (\<lambda>(key, val) acc.
             setf acc (fst (fromSupabaseField key val)) (snd (fromSupabaseField key val)))
          record []"


subsection \<open>Bulk upsert in batches, with retry\<close>

text \<open>
  The remote store is an oracle: the answer to the \<open>n\<close>-th upsert call of a run. A call
  either fails (an error object in the reply, or a rejected promise; both are thrown into
  the same handler, with their message), or replies with the rows it wrote, or replies with
  neither rows nor error.
\<close>

datatype response = Failure string | Rows "jsobj list" | NoData

text \<open>
  What the function does besides returning: calls of the progress callback
  \<open>onProgress(current, total, batchNum, totalBatches)\<close>, upserts
  (table, payload, conflict key) and waits (milliseconds).
\<close>

datatype event =
    Progress nat nat nat nat
  | Upsert string "jsobj list" string
  | Delay nat

record outcome =
  status :: string
  count :: "nat option"
  message :: "string option"

record bulkState =
  successCount :: nat
  failedBatches :: "(nat \<times> string) list"
  calls :: nat
  trace :: "event list"

definition BATCH_SIZE :: nat where
  "BATCH_SIZE = 100"

definition MAX_RETRIES :: nat where
  "MAX_RETRIES = 3"

definition progressEvent :: "bool \<Rightarrow> nat \<Rightarrow> nat \<Rightarrow> nat \<Rightarrow> nat \<Rightarrow> event list" where
  "progressEvent onProgress cur totalN batchNum totalBatches =
     (if onProgress then [Progress cur totalN batchNum totalBatches] else [])"

text \<open>
  The loop \<open>while (retryCount < MAX_RETRIES && !batchSuccess)\<close>. A reply with neither rows
  nor error leaves both loop variables unchanged, so the loop need not end: the result is
  \<open>None\<close> when it does not.
\<close>

partial_function (option) retryLoop ::
  "(nat \<Rightarrow> response) \<Rightarrow> bool \<Rightarrow> string \<Rightarrow> jsobj list \<Rightarrow> string \<Rightarrow> nat \<Rightarrow> nat \<Rightarrow> nat
     \<Rightarrow> nat \<Rightarrow> bulkState \<Rightarrow> bulkState option"
where
  "retryLoop store onProgress supabaseTable processedData pk totalN batchNum totalBatches retryCount st =
     (if retryCount < MAX_RETRIES then
        (case store (calls st) of
           Failure msg \<Rightarrow>
             (if retryCount + 1 < MAX_RETRIES
              then retryLoop store onProgress supabaseTable processedData pk totalN batchNum totalBatches
                     (retryCount + 1)
                     (st\<lparr>calls := calls st + 1,
                         trace := trace st @ [Upsert supabaseTable processedData pk,
                                              Delay (1000 * (retryCount + 1))]\<rparr>)
              else retryLoop store onProgress supabaseTable processedData pk totalN batchNum totalBatches
                     (retryCount + 1)
                     (st\<lparr>calls := calls st + 1,
                         trace := trace st @ [Upsert supabaseTable processedData pk],
                         failedBatches := failedBatches st @ [(batchNum, msg)]\<rparr>))
         | Rows d \<Rightarrow>
             Some (st\<lparr>calls := calls st + 1,
                      successCount := successCount st + length d,
                      trace := trace st @ [Upsert supabaseTable processedData pk]
                                 @ progressEvent onProgress (successCount st + length d) totalN
                                     batchNum totalBatches\<rparr>)
         | NoData \<Rightarrow>
             retryLoop store onProgress supabaseTable processedData pk totalN batchNum totalBatches
               retryCount
               (st\<lparr>calls := calls st + 1,
                   trace := trace st @ [Upsert supabaseTable processedData pk]\<rparr>))
      else Some st)"

text \<open>The loop \<open>for (let i = 0; i < dataArray.length; i += BATCH_SIZE)\<close>.\<close>

function batchLoop ::
  "(nat \<Rightarrow> response) \<Rightarrow> bool \<Rightarrow> string \<Rightarrow> string \<Rightarrow> jsobj list \<Rightarrow> nat \<Rightarrow> nat \<Rightarrow> bulkState
     \<Rightarrow> bulkState option"
where
  "batchLoop store onProgress frontendTable supabaseTable dataArray totalBatches i st =
     (if i < length dataArray then
        (let chunk = take BATCH_SIZE (drop i dataArray);
             processedData = map (\<lambda>item. processRecordToSupabase item supabaseTable) chunk;
             batchNum = i div BATCH_SIZE + 1;
             st1 = st\<lparr>trace := trace st @ progressEvent onProgress (successCount st)
                                              (length dataArray) batchNum totalBatches\<rparr>;
             pk = (if frontendTable = ''users'' then ''username'' else ''id'')
         in case retryLoop store onProgress supabaseTable processedData pk (length dataArray)
                   batchNum totalBatches 0 st1 of
              None \<Rightarrow> None
            | Some st2 \<Rightarrow>
                batchLoop store onProgress frontendTable supabaseTable dataArray totalBatches
                  (i + BATCH_SIZE)
                  (if i + BATCH_SIZE < length dataArray
                   then st2\<lparr>trace := trace st2 @ [Delay 200]\<rparr> else st2))
      else Some st)"
  by pat_completeness auto
termination
  by (relation "measure (\<lambda>(store, onProgress, frontendTable, supabaseTable, dataArray, totalBatches, i, st).
                            length dataArray - i)")
     (auto simp: BATCH_SIZE_def)

declare batchLoop.simps [simp del]

definition successOutcome :: "nat \<Rightarrow> outcome" where
  "successOutcome n = \<lparr>status = ''success'', count = Some n, message = None\<rparr>"

definition initialState :: bulkState where
  "initialState = \<lparr>successCount = 0, failedBatches = [], calls = 0, trace = []\<rparr>"

text \<open>
  \<open>bulkUpsertSupabaseRecords(frontendTable, dataArray, onProgress)\<close>. The record list may
  be missing (\<open>None\<close>); \<open>onProgress\<close> tells whether a callback was passed. The result is the
  returned object together with the final values of the function's local state
  (\<open>failedBatches\<close> among them) and everything it did; \<open>None\<close> when it never returns.
\<close>

definition bulkUpsertSupabaseRecords ::
  "string \<Rightarrow> jsobj list option \<Rightarrow> bool \<Rightarrow> (nat \<Rightarrow> response) \<Rightarrow> (outcome \<times> bulkState) option"
where
  "bulkUpsertSupabaseRecords frontendTable dataArray onProgress store =
     (case tableMap frontendTable of
        None \<Rightarrow> Some (\<lparr>status = ''error'', count = None, message = Some ''Unknown table''\<rparr>,
                      initialState)
      | Some supabaseTable \<Rightarrow>
          (case dataArray of
             None \<Rightarrow> Some (successOutcome 0, initialState)
           | Some ds \<Rightarrow>
               if length ds = 0 then Some (successOutcome 0, initialState)
               else
                 (let totalBatches = (length ds + BATCH_SIZE - 1) div BATCH_SIZE
                  in case batchLoop store onProgress frontendTable supabaseTable ds totalBatches 0
                            initialState of
                       None \<Rightarrow> None
                     | Some st \<Rightarrow>
                         (let st' = st\<lparr>trace := trace st @ progressEvent onProgress (successCount st)
                                                           (length ds) totalBatches totalBatches\<rparr>
                          in if length (failedBatches st') > 0
                             then Some (\<lparr>status = ''partial'',
                                         count = Some (successCount st'),
                                         message = Some (showNat (successCount st') @ ''/''
                                                         @ showNat (length ds) @ '' uploaded. ''
                                                         @ showNat (length (failedBatches st'))
                                                         @ '' batches failed.'')\<rparr>, st')
                             else Some (successOutcome (successCount st'), st')))))"

section \<open>Header detection (HistoryTable.tsx, AssetManagement.tsx)\<close>

text \<open>
  Both import paths scan the first ten rows of the grid for the header row with the same
  loop; they differ in the keyword list. A cell is rendered with \<open>String\<close>, lower-cased
  and trimmed; a cell is a hit when it contains one of the keywords.
\<close>

definition historyKeywords :: "string list" where
  "historyKeywords = [''id'', ''date'', ''qty'', ''item'', ''machine'', ''unit'', ''status'']"

definition assetKeywords :: "string list" where
  "assetKeywords = [''id'', ''name'', ''qty'', ''machine'', ''item'', ''part'', ''serial'', ''brand'', ''model'']"

definition normCell :: "jsval \<Rightarrow> string" where
  "normCell cell = trim (toLowerCase (String_js cell))"

definition keywordHits :: "string list \<Rightarrow> jsval list \<Rightarrow> string list" where
  "keywordHits keys row =
     filter (\<lambda>cell. list_ex (\<lambda>key. includes_js cell key) keys) (map normCell row)"

text \<open>
  The loop \<open>for (let r = 0; r < Math.min(rows.length, 10); r++)\<close> with its \<open>break\<close>: the
  rows still to scan and the index of the first of them.
\<close>

fun scanHeader :: "string list \<Rightarrow> jsval list list \<Rightarrow> nat \<Rightarrow> nat option" where
  "scanHeader keys [] r = None"
| "scanHeader keys (row # rest) r =
     (if 2 \<le> length (keywordHits keys row) then Some r else scanHeader keys rest (Suc r))"

definition detectHeaderRow :: "string list \<Rightarrow> jsval list list \<Rightarrow> nat" where
  "detectHeaderRow keys rows = (case scanHeader keys (take 10 rows) 0 of Some r \<Rightarrow> r | None \<Rightarrow> 0)"

definition detectHeaderHistory :: "jsval list list \<Rightarrow> nat" where
  "detectHeaderHistory rawRows = detectHeaderRow historyKeywords rawRows"

definition detectHeaderAssets :: "jsval list list \<Rightarrow> nat" where
  "detectHeaderAssets rows = detectHeaderRow assetKeywords rows"


section \<open>Collections, environment and shared helpers of the two import components\<close>

text \<open>
  The collections the components receive as properties. Entities are objects; the acc
  passed to \<open>resolveId\<close> are declared in the source as \<open>{ id: string, name: string }[]\<close>
  and are pairs (id, name) here.
\<close>

record props =
  machines :: "jsobj list"
  items :: "jsobj list"
  bomRecords :: "jsobj list"
  breakdowns :: "jsobj list"
  history :: "jsobj list"
  locations :: "(string \<times> string) list"
  sectors :: "(string \<times> string) list"
  divisions :: "(string \<times> string) list"

text \<open>
  What the code reads from the clock, the random source and the date parser while it
  processes the data row with a given index: \<open>Date.now()\<close>,
  \<open>Math.floor(Math.random() * 10000)\<close>, \<open>Math.floor(Math.random() * 900000)\<close>,
  \<open>Math.random().toString(36).substr(2, 5)\<close>, \<open>new Date().toISOString()\<close>, and
  \<open>new Date(val).toISOString()\<close>, which throws a \<open>RangeError\<close> (here \<open>None\<close>) on a value
  that is not a date.
\<close>

record env =
  dateNow :: "nat \<Rightarrow> nat"
  random10000 :: "nat \<Rightarrow> nat"
  random900000 :: "nat \<Rightarrow> nat"
  randomSuffix :: "nat \<Rightarrow> string"
  nowISO :: "nat \<Rightarrow> string"
  dateToISO :: "jsval \<Rightarrow> string option"

datatype jsError = TypeError | RangeError

text \<open>
  Strict equality \<open>a === b\<close> on values: \<open>NaN\<close> equals nothing, and two arrays read from
  different objects are different objects.
\<close>

definition strictEq :: "jsval \<Rightarrow> jsval \<Rightarrow> bool" where
  "strictEq a b = (a = b \<and> a \<noteq> NaN \<and> \<not> isArray a)"

text \<open>\<open>s.replace(/[\s-_.]/g, '')\<close>: white space, hyphen, underscore and dot are removed.\<close>

definition stripSeparators :: "string \<Rightarrow> string" where
  "stripSeparators s =
     filter (\<lambda>c. \<not> (isSpace c \<or> c = CHR ''-'' \<or> c = CHR ''_'' \<or> c = CHR ''.'')) s"

text \<open>
  \<open>(x || '').toLowerCase()\<close> for a field \<open>x\<close> that its type declares a string or absent.
\<close>

definition lowerOrEmpty :: "jsval \<Rightarrow> string" where
  "lowerOrEmpty x = toLowerCase (String_js (orElse x (Str [])))"

definition ids :: "jsobj list \<Rightarrow> jsval list" where
  "ids entities = map (\<lambda>e. fld e ''id'') entities"

section \<open>Asset, breakdown and bill-of-materials import (AssetManagement.tsx, processImport)\<close>

datatype tab = Machines | Breakdowns | Bom

definition resolveId_asset :: "string \<Rightarrow> (string \<times> string) list \<Rightarrow> jsval" where
  "resolveId_asset val list =
     (if val = [] then Null
      else let trimmed = trim val in
        if trimmed = [] then Null
        else (case find (\<lambda>i. fst i = trimmed) list of
                Some byId \<Rightarrow> Str (fst byId)
              | None \<Rightarrow>
                  (case find (\<lambda>i. toLowerCase (snd i) = toLowerCase trimmed) list of
                     Some byName \<Rightarrow> Str (fst byName)
                   | None \<Rightarrow> Null)))"

text \<open>
  The quote characters removed from an item reference, as the source file spells the
  character class: the ASCII quotes and the code points AC, B4 and AA.
\<close>

definition stripQuotes :: "string \<Rightarrow> string" where
  "stripQuotes s =
     filter (\<lambda>c. \<not> (c = CHR 0x27 \<or> c = CHR 0x22 \<or> c = CHR 0xAC \<or> c = CHR 0xB4 \<or> c = CHR 0xAA)) s"

definition resolveItemId_asset :: "jsobj list \<Rightarrow> string \<Rightarrow> jsval" where
  "resolveItemId_asset its val =
     (if val = [] then Null
      else let trimmed = stripQuotes (toLowerCase (trim val)) in
        if trimmed = [] then Null
        else (case find (\<lambda>i. toLowerCase (String_js (fld i ''id'')) = trimmed) its of
                Some byId \<Rightarrow> fld byId ''id''
              | None \<Rightarrow>
        (case find (\<lambda>i. toLowerCase (String_js (orElse (fld i ''partNumber'') (Str []))) = trimmed) its of
                Some byPart \<Rightarrow> fld byPart ''id''
              | None \<Rightarrow>
        (case find (\<lambda>i. toLowerCase (String_js (orElse (fld i ''secondId'') (Str []))) = trimmed
                         \<or> toLowerCase (String_js (orElse (fld i ''thirdId'') (Str []))) = trimmed) its of
                Some byOtherId \<Rightarrow> fld byOtherId ''id''
              | None \<Rightarrow>
        (case find (\<lambda>i. toLowerCase (String_js (orElse (fld i ''name'') (Str []))) = trimmed
                         \<or> toLowerCase (String_js (orElse (fld i ''fullName'') (Str []))) = trimmed) its of
                Some byName \<Rightarrow> fld byName ''id''
              | None \<Rightarrow>
                  if list_all isDigit trimmed
                  then (case find (\<lambda>i. filter isDigit (String_js (fld i ''id'')) = trimmed
                                        \<or> filter isDigit (String_js (orElse (fld i ''partNumber'') (Str []))) = trimmed)
                               its of
                          Some numericMatch \<Rightarrow> fld numericMatch ''id''
                        | None \<Rightarrow> Null)
                  else Null)))))"

text \<open>The first \<open>if\<close> / \<open>else if\<close> chain of the header loop, applied for every tab.\<close>

definition commonHeader ::
  "tab \<Rightarrow> props \<Rightarrow> string \<Rightarrow> jsval \<Rightarrow> jsobj \<Rightarrow> jsobj"
where
  "commonHeader tb p header cell obj =
     (let s = trim (String_js cell) in
      if (header = ''id'' \<or> header = ''machineid'' \<or> header = ''assetid'' \<or> header = ''entryid'')
         \<and> \<not> truthy (fld obj ''id'')
      then setf obj ''id'' (orElse (Str s) Undefined)
      else if includes_js header ''name'' \<or> includes_js header ''description''
              \<or> includes_js header ''category'' \<or> header = ''equipment'' \<or> header = ''machinename''
      then (if tb = Machines then setf obj ''category'' (Str s)
            else if tb = Breakdowns then setf obj ''machineName'' (Str s)
            else obj)
      else if header = ''status'' then setf obj ''status'' (Str s)
      else if header = ''brand'' \<or> header = ''make'' \<or> header = ''manufacturer''
      then setf obj ''brand'' (Str s)
      else if header = ''model'' \<or> header = ''modelno'' \<or> header = ''modelnumber'' \<or> header = ''type''
      then setf obj ''modelNo'' (Str s)
      else if header = ''chase'' \<or> header = ''chassis'' \<or> header = ''chaseno'' \<or> header = ''chassisno''
              \<or> header = ''serial'' \<or> header = ''serialno'' \<or> header = ''sn''
      then setf obj ''chassisNo'' (Str s)
      else if includes_js header ''division''
      then setf obj ''divisionId'' (orElse (resolveId_asset (String_js cell) (divisions p)) Null)
      else if includes_js header ''sector''
      then setf obj ''sectorId'' (orElse (resolveId_asset (String_js cell) (sectors p)) Null)
      else if includes_js header ''location''
      then setf obj ''locationId'' (orElse (resolveId_asset (String_js cell) (locations p)) Null)
      else if header = ''maingroup'' \<or> header = ''group'' then setf obj ''mainGroup'' (Str s)
      else if header = ''subgroup'' then setf obj ''subGroup'' (Str s)
      else if header = ''localno'' \<or> header = ''machinelocalno'' \<or> header = ''assetno''
      then setf obj ''machineLocalNo'' (Str s)
      else obj)"

text \<open>
  The block \<open>if (tab === 'bom') { ... }\<close> of the header loop: its own chain, then the two
  catch-all assignments. It also extends the list of item references that did not match.
\<close>

definition bomHeader ::
  "props \<Rightarrow> string \<Rightarrow> jsval \<Rightarrow> jsobj \<times> string list \<Rightarrow> jsobj \<times> string list"
where
  "bomHeader p header cell st =
     (let obj = fst st; failedItemMatches = snd st; s = trim (String_js cell);
          st1 =
            (if header = ''machinename'' \<or> header = ''equipname'' \<or> header = ''machine''
             then (setf obj ''machineCategory'' (Str s), failedItemMatches)
             else if header = ''brand'' \<or> header = ''make''
             then (setf obj ''brand'' (Str s), failedItemMatches)
             else if header = ''modelno'' \<or> header = ''modelnumber'' \<or> header = ''model''
             then (setf obj ''modelNo'' (Str s), failedItemMatches)
             else if header = ''itemid'' \<or> header = ''itemcode'' \<or> header = ''partnumber''
                     \<or> header = ''code'' \<or> header = ''item''
             then (let itemId = resolveItemId_asset (items p) s
                   in (setf obj ''itemId'' itemId,
                       if \<not> truthy itemId \<and> s \<noteq> [] \<and> s \<notin> set failedItemMatches
                       then failedItemMatches @ [s] else failedItemMatches))
             else if header = ''quantity'' \<or> header = ''qty'' \<or> header = ''count''
             then (setf obj ''quantity'' (orElse (Number_js cell) (Num 0)), failedItemMatches)
             else (obj, failedItemMatches));
          obj1 = fst st1;
          obj2 = (if includes_js header ''machine'' \<and> \<not> truthy (fld obj1 ''machineCategory'')
                  then setf obj1 ''machineCategory'' (Str s) else obj1);
          obj3 = (if includes_js header ''model'' \<and> \<not> truthy (fld obj2 ''modelNo'')
                  then setf obj2 ''modelNo'' (Str s) else obj2)
      in (obj3, snd st1))"

text \<open>One round of \<open>headers.forEach((h, i) => ...)\<close> and the whole loop for a data row.\<close>

definition headerStep ::
  "tab \<Rightarrow> props \<Rightarrow> jsval list \<Rightarrow> string \<times> nat \<Rightarrow> jsobj \<times> string list \<Rightarrow> jsobj \<times> string list"
where
  "headerStep tb p row hi st =
     (let header = stripSeparators (fst hi); cell = cellAt row (snd hi);
          obj1 = commonHeader tb p header cell (fst st)
      in if tb = Bom then bomHeader p header cell (obj1, snd st) else (obj1, snd st))"

definition normalizeRow ::
  "tab \<Rightarrow> props \<Rightarrow> string list \<Rightarrow> jsval list \<Rightarrow> nat \<Rightarrow> string list \<Rightarrow> jsobj \<times> string list"
where
  "normalizeRow tb p headers row rowIndex failedItemMatches =
     fold (headerStep tb p row) (zip headers [0..<length headers])
       (if tb = Bom then [(''sortOrder'', Num (int rowIndex))] else [], failedItemMatches)"

text \<open>The natural key of a bill-of-materials line, as \<open>bomRecords.find\<close> tests it.\<close>

definition bomNaturalKeyMatch :: "jsobj \<Rightarrow> jsobj \<Rightarrow> bool" where
  "bomNaturalKeyMatch obj b =
     (strictEq (fld b ''machineCategory'') (fld obj ''machineCategory'')
      \<and> (strictEq (fld b ''modelNo'') (orElse (fld obj ''modelNo'') (Str []))
           \<or> strictEq (fld b ''modelNo'') (fld obj ''modelNo''))
      \<and> strictEq (fld b ''itemId'') (fld obj ''itemId''))"

text \<open>The block \<open>if (tab === 'bom' && !obj.id) { ... }\<close>.\<close>

definition assignBomId :: "env \<Rightarrow> props \<Rightarrow> nat \<Rightarrow> jsobj \<Rightarrow> jsobj" where
  "assignBomId e p rowIndex obj =
     (if \<not> truthy (fld obj ''id'') then
        (if truthy (fld obj ''machineCategory'')
            \<and> (truthy (fld obj ''itemId'') \<or> fld obj ''quantity'' \<noteq> Undefined)
         then
           (let obj1 =
                  (if truthy (fld obj ''itemId'') then
                     (case find (bomNaturalKeyMatch obj) (bomRecords p) of
                        Some existingBOM \<Rightarrow> setf obj ''id'' (fld existingBOM ''id'')
                      | None \<Rightarrow>
                          setf obj ''id''
                            (Str (''BOM-'' @ showNat (dateNow e rowIndex) @ ''-''
                                  @ showNat (random10000 e rowIndex))))
                   else obj)
            in if fld obj1 ''modelNo'' = Undefined then setf obj1 ''modelNo'' (Str []) else obj1)
         else obj)
      else obj)"

text \<open>The block \<open>if (tab === 'machines' && !obj.id) { ... }\<close>.\<close>

definition assignMachineId :: "env \<Rightarrow> props \<Rightarrow> nat \<Rightarrow> jsobj \<Rightarrow> jsobj" where
  "assignMachineId e p rowIndex obj =
     (if \<not> truthy (fld obj ''id'') then
        (let obj1 =
               (if truthy (fld obj ''chassisNo'') then
                  (case find (\<lambda>m. strictEq (fld m ''chassisNo'') (fld obj ''chassisNo'')) (machines p) of
                     Some existing \<Rightarrow> setf obj ''id'' (fld existing ''id'')
                   | None \<Rightarrow> obj)
                else obj)
         in if \<not> truthy (fld obj1 ''id'') \<and> truthy (fld obj1 ''category'')
            then setf obj1 ''id'' (Str (''M-'' @ showNat (random900000 e rowIndex + 100000)))
            else obj1)
      else obj)"

text \<open>
  What happens to a data row: it is pushed to \<open>toAdd\<close>, pushed to \<open>toUpdate\<close>, fails the
  test that guards the push (\<open>processImport\<close> counts these rows in \<open>skippedRows\<close>), or is
  left by an early \<open>return\<close>.
\<close>

datatype rowDecision = Add jsobj | Update jsobj | Skipped | Returned

definition targetList :: "tab \<Rightarrow> props \<Rightarrow> jsobj list" where
  "targetList tb p = (if tb = Machines then machines p
                      else if tb = Breakdowns then breakdowns p else bomRecords p)"

definition withDefaults :: "tab \<Rightarrow> jsobj \<Rightarrow> jsobj" where
  "withDefaults tb obj =
     (case tb of
        Machines \<Rightarrow>
          (let o1 = setf obj ''category'' (orElse (fld obj ''category'') (Str ''Unknown Machine''));
               o2 = setf o1 ''status'' (orElse (fld o1 ''status'') (Str ''Working''))
           in setf o2 ''machineLocalNo'' (orElse (fld o2 ''machineLocalNo'') (Str [])))
      | Breakdowns \<Rightarrow>
          (let o1 = setf obj ''machineName'' (orElse (fld obj ''machineName'') (Str ''Unknown Machine''))
           in setf o1 ''status'' (orElse (fld o1 ''status'') (Str ''Open'')))
      | Bom \<Rightarrow>
          (let o1 = setf obj ''machineCategory'' (orElse (fld obj ''machineCategory'') (Str ''Unknown''))
           in setf o1 ''modelNo'' (orElse (fld o1 ''modelNo'') (Str []))))"

text \<open>The block \<open>if (obj.id) { ... } else { skippedRows++ }\<close>.\<close>

definition classifyRow :: "tab \<Rightarrow> props \<Rightarrow> jsobj \<Rightarrow> rowDecision" where
  "classifyRow tb p obj =
     (if truthy (fld obj ''id'') then
        (let obj1 = withDefaults tb obj in
         if tb = Bom \<and> \<not> truthy (fld obj1 ''itemId'') then Returned
         else (case find (\<lambda>i. strictEq (fld i ''id'') (fld obj1 ''id'')) (targetList tb p) of
                 Some exists \<Rightarrow> Update (spread exists obj1)
               | None \<Rightarrow> Add obj1))
      else Skipped)"

record importResult =
  toAdd :: "jsobj list"
  toUpdate :: "jsobj list"
  skippedRows :: nat
  failedItemMatches :: "string list"

text \<open>The body of \<open>dataRows.forEach((row, rowIndex) => ...)\<close>.\<close>

definition identifyRow :: "env \<Rightarrow> tab \<Rightarrow> props \<Rightarrow> nat \<Rightarrow> jsobj \<Rightarrow> jsobj" where
  "identifyRow e tb p rowIndex obj =
     (let obj1 = (if tb = Bom then assignBomId e p rowIndex obj else obj)
      in if tb = Machines then assignMachineId e p rowIndex obj1 else obj1)"

definition processRow ::
  "env \<Rightarrow> tab \<Rightarrow> props \<Rightarrow> string list \<Rightarrow> jsval list \<times> nat \<Rightarrow> importResult \<Rightarrow> importResult"
where
  "processRow e tb p headers ri res =
     (let n = normalizeRow tb p headers (fst ri) (snd ri) (failedItemMatches res);
          res1 = res\<lparr>failedItemMatches := snd n\<rparr>
      in case classifyRow tb p (identifyRow e tb p (snd ri) (fst n)) of
           Add obj \<Rightarrow> res1\<lparr>toAdd := toAdd res1 @ [obj]\<rparr>
         | Update obj \<Rightarrow> res1\<lparr>toUpdate := toUpdate res1 @ [obj]\<rparr>
         | Skipped \<Rightarrow> res1\<lparr>skippedRows := skippedRows res1 + 1\<rparr>
         | Returned \<Rightarrow> res1)"

text \<open>
  \<open>processImport(rows, tab)\<close>, up to the call \<open>onBulkImport(tab, toAdd, toUpdate)\<close>: the
  result holds the two acc passed on and the two values the summary message is built
  from. On an empty grid \<open>rows[0].map\<close> throws a \<open>TypeError\<close>.
\<close>

definition processImport :: "env \<Rightarrow> props \<Rightarrow> jsval list list \<Rightarrow> tab \<Rightarrow> jsError + importResult" where
  "processImport e p rows tb =
     (if rows = [] then Inl TypeError
      else (let headerRowIndex = detectHeaderAssets rows;
                headers = map normCell (rows ! headerRowIndex);
                dataRows = drop (headerRowIndex + 1) rows
            in Inr (fold (processRow e tb p headers) (zip dataRows [0..<length dataRows])
                      \<lparr>toAdd = [], toUpdate = [], skippedRows = 0, failedItemMatches = []\<rparr>)))"


section \<open>Issue-request and stock import (HistoryTable.tsx, handleFileChange)\<close>

datatype tabType = Requests | Tracking | Stock

text \<open>
  \<open>Object.keys(o)\<close>: keys that are array indices come first, in ascending numeric order,
  then the other keys in insertion order.
\<close>

definition isIndexKey :: "string \<Rightarrow> bool" where
  "isIndexKey k = (k \<noteq> [] \<and> list_all isDigit k \<and> (k = ''0'' \<or> hd k \<noteq> CHR ''0'')
                   \<and> digitsVal 0 k < 4294967295)"

definition objectKeys :: "jsobj \<Rightarrow> string list" where
  "objectKeys ob = sort_key (digitsVal 0) (filter isIndexKey (map fst ob))
                   @ filter (\<lambda>k. \<not> isIndexKey k) (map fst ob)"

text \<open>A loop whose body may throw: the first error ends it.\<close>

fun foldE :: "('a \<Rightarrow> 'b \<Rightarrow> jsError + 'b) \<Rightarrow> 'a list \<Rightarrow> 'b \<Rightarrow> jsError + 'b" where
  "foldE f [] acc = Inr acc"
| "foldE f (x # xs) acc = (case f x acc of Inl err \<Rightarrow> Inl err | Inr acc' \<Rightarrow> foldE f xs acc')"

text \<open>Row objects: \<open>headerRaw.forEach((h, i) => { obj[String(h)] = r[i]; })\<close>.\<close>

definition rowObject :: "jsval list \<Rightarrow> jsval list \<Rightarrow> jsobj" where
  "rowObject headerRaw r =
     fold (\<lambda>hi obj. setf obj (String_js (fst hi)) (cellAt r (snd hi)))
       (zip headerRaw [0..<length headerRaw]) []"

definition hasValue :: "jsobj \<Rightarrow> bool" where
  "hasValue obj = list_ex (\<lambda>v. v \<noteq> Undefined \<and> v \<noteq> Null \<and> v \<noteq> Str []) (map snd obj)"

definition resolveId_history :: "jsval \<Rightarrow> (string \<times> string) list \<Rightarrow> jsval" where
  "resolveId_history val list =
     (if \<not> truthy val then Str []
      else let trimmed = trim (String_js val) in
        (case find (\<lambda>i. fst i = trimmed) list of
           Some byId \<Rightarrow> Str (fst byId)
         | None \<Rightarrow>
             (case find (\<lambda>i. toLowerCase (snd i) = toLowerCase trimmed) list of
                Some byName \<Rightarrow> Str (fst byName)
              | None \<Rightarrow> Str trimmed)))"

definition resolveMachineId :: "jsobj list \<Rightarrow> jsval \<Rightarrow> jsval" where
  "resolveMachineId ms val =
     (if \<not> truthy val then Str ''Unknown''
      else let trimmed = trim (String_js val) in
        (case find (\<lambda>m. strictEq (fld m ''id'') (Str trimmed)) ms of
           Some byId \<Rightarrow> fld byId ''id''
         | None \<Rightarrow>
             (case find (\<lambda>m. lowerOrEmpty (fld m ''category'') = toLowerCase trimmed) ms of
                Some byName \<Rightarrow> fld byName ''id''
              | None \<Rightarrow> Str ''Unknown'')))"

definition resolveItemId_history :: "jsobj list \<Rightarrow> jsval \<Rightarrow> jsval" where
  "resolveItemId_history its val =
     (if \<not> truthy val then Str []
      else let trimmed = trim (String_js val) in
        (case find (\<lambda>i. strictEq (fld i ''id'') (Str trimmed)) its of
           Some byId \<Rightarrow> fld byId ''id''
         | None \<Rightarrow>
             (case find (\<lambda>i. lowerOrEmpty (fld i ''name'') = toLowerCase trimmed
                              \<or> lowerOrEmpty (fld i ''fullName'') = toLowerCase trimmed) its of
                Some byName \<Rightarrow> fld byName ''id''
              | None \<Rightarrow> Str [])))"

text \<open>
  The header chain of the requests tab for one key \<open>k\<close> of the row object with value
  \<open>val\<close>. A date that cannot be parsed throws.
\<close>

definition requestField :: "env \<Rightarrow> string \<Rightarrow> jsval \<Rightarrow> jsobj \<Rightarrow> jsError + jsobj" where
  "requestField e k val obj =
     (let header = stripSeparators (toLowerCase k) in
      if header = ''id'' \<or> header = ''requestid'' then Inr (setf obj ''id'' (Str (String_js val)))
      else if header = ''date'' \<or> header = ''timestamp''
      then (case dateToISO e val of
              None \<Rightarrow> Inl RangeError
            | Some isoString \<Rightarrow> Inr (setf obj ''timestamp'' (Str isoString)))
      else if header = ''location'' \<or> header = ''locationid'' \<or> header = ''warehouse''
      then Inr (setf obj ''locationId'' (Str (String_js val)))
      else if header = ''itemid'' \<or> header = ''itemnumber'' \<or> header = ''itemcode''
              \<or> header = ''partnumber''
      then Inr (setf obj ''itemId'' (Str (String_js val)))
      else if header = ''itemname'' \<or> header = ''description''
      then Inr (setf obj ''itemName'' (Str (String_js val)))
      else if header = ''qty'' \<or> header = ''quantity'' \<or> header = ''count''
      then Inr (setf obj ''quantity'' (Number_js val))
      else if header = ''unit'' then Inr (setf obj ''unit'' (Str (String_js val)))
      else if header = ''machine'' \<or> header = ''machinename'' \<or> header = ''equipment''
      then Inr (setf obj ''machineName'' (Str (String_js val)))
      else if header = ''machineid'' \<or> header = ''assetid''
      then Inr (setf obj ''machineId'' (Str (String_js val)))
      else if header = ''status'' then Inr (setf obj ''status'' (Str (String_js val)))
      else if header = ''plan'' \<or> header = ''maintplan'' \<or> header = ''maintenanceplan''
      then Inr (setf obj ''maintenancePlan'' (Str (String_js val)))
      else Inr obj)"

definition normalizeRequest :: "env \<Rightarrow> jsobj \<Rightarrow> jsError + jsobj" where
  "normalizeRequest e row = foldE (\<lambda>k obj. requestField e k (fld row k) obj) (objectKeys row) []"

text \<open>The record literal built for a request row that has an item reference and a quantity.\<close>

definition requestRecord :: "env \<Rightarrow> props \<Rightarrow> nat \<Rightarrow> jsobj \<Rightarrow> jsval \<Rightarrow> jsval \<Rightarrow> jsval \<Rightarrow> jsobj" where
  "requestRecord e p rowIndex obj idv itemId qty =
     [(''id'', idv),
      (''timestamp'', orElse (fld obj ''timestamp'') (Str (nowISO e rowIndex))),
      (''locationId'', resolveId_history (orElse (fld obj ''locationId'') (Str ''Unknown'')) (locations p)),
      (''itemId'', resolveItemId_history (items p) itemId),
      (''itemName'',
         orElse (fld obj ''itemName'')
           (orElse (case find (\<lambda>i. strictEq (fld i ''id'') itemId) (items p) of
                      Some i \<Rightarrow> fld i ''name'' | None \<Rightarrow> Undefined)
                   (Str ''Unknown Item''))),
      (''quantity'', qty),
      (''unit'', orElse (fld obj ''unit'') (Str ''pcs'')),
      (''machineId'',
         resolveMachineId (machines p)
           (orElse (fld obj ''machineId'') (orElse (fld obj ''machineName'') (Str ''Unknown'')))),
      (''machineName'', orElse (fld obj ''machineName'') (Str ''Unknown'')),
      (''status'', orElse (fld obj ''status'') (Str ''Completed'')),
      (''maintenancePlan'', orElse (fld obj ''maintenancePlan'') (Str []))]"

text \<open>
  What the requests tab does with a normalised row: nothing (no item reference or no
  quantity, item not found, machine not found), or a push to one of the two acc.
\<close>

definition reconcileRequest :: "env \<Rightarrow> props \<Rightarrow> nat \<Rightarrow> jsobj \<Rightarrow> rowDecision" where
  "reconcileRequest e p rowIndex obj =
     (let idv = orElse (fld obj ''id'')
                  (Str (''IMP-'' @ showNat (dateNow e rowIndex) @ ''-'' @ randomSuffix e rowIndex));
          itemId = orElse (fld obj ''itemId'') (Str []);
          qty = orElse (fld obj ''quantity'') (Num 0)
      in if truthy itemId \<and> truthy qty then
           (let existing = find (\<lambda>h. strictEq (fld h ''id'') idv) (history p);
                record = requestRecord e p rowIndex obj idv itemId qty
            in if \<not> truthy (fld record ''itemId'') \<or> strictEq (fld record ''itemId'') (Str [])
               then Returned
               else if strictEq (fld record ''machineId'') (Str ''Unknown'') then Returned
               else (case existing of Some h \<Rightarrow> Update record | None \<Rightarrow> Add record))
         else Skipped)"

definition pushDecision :: "rowDecision \<Rightarrow> jsobj list \<times> jsobj list \<Rightarrow> jsobj list \<times> jsobj list" where
  "pushDecision d acc =
     (case d of
        Add obj \<Rightarrow> (fst acc @ [obj], snd acc)
      | Update obj \<Rightarrow> (fst acc, snd acc @ [obj])
      | Skipped \<Rightarrow> acc
      | Returned \<Rightarrow> acc)"

definition requestRow ::
  "env \<Rightarrow> props \<Rightarrow> jsobj \<times> nat \<Rightarrow> jsobj list \<times> jsobj list \<Rightarrow> jsError + jsobj list \<times> jsobj list"
where
  "requestRow e p ri acc =
     (case normalizeRequest e (fst ri) of
        Inl err \<Rightarrow> Inl err
      | Inr obj \<Rightarrow> Inr (pushDecision (reconcileRequest e p (snd ri) obj) acc))"

text \<open>The header chain and the row body of the stock tab.\<close>

definition stockField :: "string \<Rightarrow> jsval \<Rightarrow> jsobj \<Rightarrow> jsobj" where
  "stockField k val obj =
     (let header = stripSeparators (toLowerCase k) in
      if header = ''id'' \<or> header = ''itemid'' \<or> header = ''itemnumber'' \<or> header = ''itemcode''
         \<or> header = ''partnumber''
      then setf obj ''id'' (Str (String_js val))
      else if header = ''name'' \<or> header = ''description'' then setf obj ''name'' (Str (String_js val))
      else if header = ''stockqty'' \<or> header = ''qty'' \<or> header = ''quantity'' \<or> header = ''count''
      then setf obj ''stockQuantity'' (Number_js val)
      else if header = ''unit'' then setf obj ''unit'' (Str (String_js val))
      else if header = ''category'' then setf obj ''category'' (Str (String_js val))
      else obj)"

definition normalizeStock :: "jsobj \<Rightarrow> jsobj" where
  "normalizeStock row = fold (\<lambda>k obj. stockField k (fld row k) obj) (objectKeys row) []"

definition reconcileStock :: "props \<Rightarrow> jsobj \<Rightarrow> rowDecision" where
  "reconcileStock p obj =
     (if truthy (fld obj ''id'') then
        (case find (\<lambda>i. strictEq (fld i ''id'') (fld obj ''id'')) (items p) of
           Some existing \<Rightarrow> Update (spread existing obj)
         | None \<Rightarrow>
             Add [(''id'', fld obj ''id''),
                  (''name'', orElse (fld obj ''name'') (Str ''New Item'')),
                  (''stockQuantity'', orElse (fld obj ''stockQuantity'') (Num 0)),
                  (''unit'', orElse (fld obj ''unit'') (Str ''pcs'')),
                  (''category'', orElse (fld obj ''category'') (Str ''General''))])
      else Skipped)"

text \<open>
  What the file handler ends in: the alert "No valid data rows found.", the alert
  "Failed to process file." of the \<open>catch\<close>, the call
  \<open>onBulkImport(name, toAdd, toUpdate)\<close>, or nothing (the tracking tab).
\<close>

datatype importOutcome =
    NoValidRows
  | ProcessFailed
  | BulkImport string "jsobj list" "jsobj list"
  | NoImport

definition rowAt :: "jsval list list \<Rightarrow> nat \<Rightarrow> jsval list" where
  "rowAt rws i = (if i < length rws then rws ! i else [])"

text \<open>
  \<open>handleFileChange\<close> from the parsed sheet on: \<open>rawRows\<close> is the grid
  \<open>sheet_to_json(ws, { header: 1 })\<close>. With an empty grid no row object is built, so the
  missing header row is never read.
\<close>

definition handleFileChange :: "env \<Rightarrow> props \<Rightarrow> tabType \<Rightarrow> jsval list list \<Rightarrow> importOutcome" where
  "handleFileChange e p activeTab rawRows =
     (let headerRowIndex = detectHeaderHistory rawRows;
          rws = drop (headerRowIndex + 1) rawRows;
          headerRaw = rowAt rawRows headerRowIndex;
          dat = filter hasValue (map (rowObject headerRaw) rws)
      in if dat = [] then NoValidRows
         else (case activeTab of
                 Requests \<Rightarrow>
                   (case foldE (requestRow e p) (zip dat [0..<length dat]) ([], []) of
                      Inl err \<Rightarrow> ProcessFailed
                    | Inr acc \<Rightarrow> BulkImport ''history'' (fst acc) (snd acc))
               | Stock \<Rightarrow>
                   (let acc = fold (\<lambda>row. pushDecision (reconcileStock p (normalizeStock row))) dat
                                  ([], [])
                    in BulkImport ''items'' (fst acc) (snd acc))
               | Tracking \<Rightarrow> NoImport))"

section \<open>Predicates and concrete inputs used in the statements\<close>

definition demoRecord :: jsobj where
  "demoRecord = [(''id'', Str ''B-1''), (''itemId'', Str ''IT-9'')]"

text \<open>
  A store that accepts the first call, fails the next three calls with the given message
  and accepts every later call, echoing 100 and 50 rows.
\<close>

definition demoStore :: "string \<Rightarrow> nat \<Rightarrow> response" where
  "demoStore msg n =
     (if n = 0 then Rows (replicate 100 demoRecord)
      else if n \<le> 3 then Failure msg
      else Rows (replicate 50 demoRecord))"

text \<open>
  Predicates on records for the key-casing translation: keys made of ASCII letters only, an
  empty value (\<open>null\<close>, \<open>undefined\<close> or \<open>''\<close>), and a non-empty array of non-empty
  strings without commas.
\<close>

definition lettersOnly :: "string \<Rightarrow> bool" where
  "lettersOnly k = list_all (\<lambda>c. isUpperAZ c \<or> isLowerAZ c) k"

definition emptyValue :: "jsval \<Rightarrow> bool" where
  "emptyValue v = (v = Null \<or> v = Undefined \<or> v = Str [])"

definition commaFreeString :: "jsval \<Rightarrow> bool" where
  "commaFreeString x = (case x of Str s \<Rightarrow> s \<noteq> [] \<and> CHR '','' \<notin> set s | _ \<Rightarrow> False)"

definition stringListValue :: "jsval \<Rightarrow> bool" where
  "stringListValue v = (case v of Arr xs \<Rightarrow> xs \<noteq> [] \<and> list_all commaFreeString xs | _ \<Rightarrow> False)"

text \<open>
  The records claim C9 speaks of: an object (no key twice) whose keys are letters only,
  whose \<open>name\<close>, \<open>status\<close> and \<open>category\<close> fields are not empty where the record has them,
  and whose four list-valued fields, where the record has them, hold non-empty arrays of
  non-empty comma-free strings.
\<close>

definition statedRecord :: "jsobj \<Rightarrow> bool" where
  "statedRecord record =
     (distinct (map fst record)
      \<and> list_all (\<lambda>(k, v). lettersOnly k) record
      \<and> list_all (\<lambda>(k, v). (k = ''name'' \<or> k = ''status'' \<or> k = ''category'') \<longrightarrow> \<not> emptyValue v) record
      \<and> list_all (\<lambda>(k, v). k \<in> set listFields \<longrightarrow> stringListValue v) record)"

text \<open>
  The records the round trip holds for: those of the claim that, in addition, carry what
  the table-level defaults of \<open>processRecordToSupabase\<close> would otherwise add: a name that
  reads true when written to the \<open>items\<close> table, a status that reads true when written to
  the \<open>machines\<close> table.
\<close>

definition roundTripRecord :: "jsobj \<Rightarrow> string \<Rightarrow> bool" where
  "roundTripRecord record tableName =
     (statedRecord record
      \<and> (tableName = ''items'' \<longrightarrow> truthy (fld record ''name''))
      \<and> (tableName = ''machines'' \<longrightarrow> truthy (fld record ''status'')))"

definition demoMachineRecord :: jsobj where
  "demoMachineRecord = [(''id'', Str ''M-1''), (''category'', Str ''Pump'')]"

definition demoItemRecord :: jsobj where
  "demoItemRecord = [(''id'', Str ''IT-1''), (''unit'', Str ''pcs'')]"

definition demoItem :: jsobj where
  "demoItem = [(''id'', Str ''IT-9''), (''name'', Str ''Bolt''), (''partNumber'', Str ''PN-55''),
               (''stockQuantity'', Num 12),
               (''allowedMenus'', Arr [Str ''dashboard'', Str ''assets''])]"

text \<open>
  The keyword set as the specification words it, and the detector the specification
  describes: the same scan over the one fixed set of twelve keywords.
\<close>

definition specKeywords :: "string list" where
  "specKeywords = [''id'', ''date'', ''qty'', ''item'', ''machine'', ''unit'', ''status'', ''name'',
                   ''part'', ''serial'', ''brand'', ''model'']"

definition specHeaderDetector :: "jsval list list \<Rightarrow> nat" where
  "specHeaderDetector rows = detectHeaderRow specKeywords rows"

text \<open>A cell contains a keyword: the keyword is a contiguous part of the normalised cell.\<close>

definition containsKeyword :: "string list \<Rightarrow> jsval \<Rightarrow> bool" where
  "containsKeyword keys cell = (\<exists>key \<in> set keys. \<exists>p q. normCell cell = p @ key @ q)"

definition gridNameBrand :: "jsval list list" where
  "gridNameBrand = [[Str ''Asset report''], [Str ''Name'', Str ''Brand''], [Str ''Pump'', Str ''KSB'']]"

definition gridDateUnit :: "jsval list list" where
  "gridDateUnit = [[Str ''Asset report''], [Str ''Date'', Str ''Unit''], [Str ''2024-01-05'', Str ''pcs'']]"

definition demoItems :: "jsobj list" where
  "demoItems = [[(''id'', Str ''IT-9''), (''partNumber'', Str ''PN-55''), (''name'', Str ''Bolt'')]]"

definition demoMachines :: "jsobj list" where
  "demoMachines = [[(''id'', Str ''M-1''), (''category'', Str ''Pump''), (''chassisNo'', Str ''CH-1'')]]"

definition demoProps :: props where
  "demoProps = \<lparr>machines = demoMachines, items = demoItems, bomRecords = [], breakdowns = [],
                 history = [], locations = [(''L-1'', ''Warehouse A'')], sectors = [], divisions = []\<rparr>"

definition demoEnv :: env where
  "demoEnv = \<lparr>dateNow = (\<lambda>i. 1000), random10000 = (\<lambda>i. 41 + i), random900000 = (\<lambda>i. 7 + i),
               randomSuffix = (\<lambda>i. ''k3x9q''), nowISO = (\<lambda>i. ''2024-01-05T08:00:00.000Z''),
               dateToISO = (\<lambda>v. None)\<rparr>"

definition gridMachines :: "jsval list list" where
  "gridMachines = [[Str ''ID'', Str ''Name''], [Str ''M-1'', Str ''Pump 2''], [Str ''M-2'', Str ''Crane'']]"

definition gridStock :: "jsval list list" where
  "gridStock = [[Str ''Item Code'', Str ''Name'', Str ''Qty''],
                [Str ''IT-9'', Str ''Bolt M8'', Str ''40''],
                [Str ''IT-10'', Str ''Nut'', Str ''5'']]"

definition gridRepeatedMachine :: "jsval list list" where
  "gridRepeatedMachine = [[Str ''ID'', Str ''Name''], [Str ''M-7'', Str ''Crane''], [Str ''M-7'', Str ''Crane'']]"

definition gridRepeatedItem :: "jsval list list" where
  "gridRepeatedItem = [[Str ''Item Code'', Str ''Name''], [Str ''IT-10'', Str ''Nut''], [Str ''IT-10'', Str ''Nut'']]"


definition gridTwins :: "jsval list list" where
  "gridTwins = [[Str ''Machine'', Str ''Item Code'', Str ''Qty''],
                [Str ''Pump'', Str ''PN-55'', Str ''2''],
                [Str ''Pump'', Str ''PN-55'', Str ''2'']]"

definition demoBomLine :: jsobj where
  "demoBomLine = [(''sortOrder'', Num 0), (''machineCategory'', Str ''Pump''),
                  (''itemId'', Str ''IT-9''), (''quantity'', Num 2)]"




























section \<open>Bulk persistence: batches, retries and the outcome\<close>


lemma showNat_250: "showNat 250 = ''250''"
  by (simp add: showNat.simps digitChar_def)

lemma showNat_1: "showNat (Suc 0) = ''1''"
  by (simp add: showNat.simps digitChar_def)

lemma retryLoop_rows:
  assumes "store (calls st) = Rows d" and "rc < MAX_RETRIES"
  shows "retryLoop store onProgress tbl payload pk totalN batchNum totalBatches rc st
           = Some (st\<lparr>calls := calls st + 1,
                      successCount := successCount st + length d,
                      trace := trace st @ [Upsert tbl payload pk]
                                 @ progressEvent onProgress (successCount st + length d) totalN
                                     batchNum totalBatches\<rparr>)"
  using assms by (subst retryLoop.simps) simp

lemma retryLoop_done:
  "retryLoop store onProgress tbl payload pk totalN batchNum totalBatches MAX_RETRIES st = Some st"
  by (subst retryLoop.simps) simp

lemma retryLoop_failure_again:
  assumes "store (calls st) = Failure msg" and "rc + 1 < MAX_RETRIES"
  shows "retryLoop store onProgress tbl payload pk totalN batchNum totalBatches rc st
           = retryLoop store onProgress tbl payload pk totalN batchNum totalBatches (rc + 1)
               (st\<lparr>calls := calls st + 1,
                   trace := trace st @ [Upsert tbl payload pk, Delay (1000 * (rc + 1))]\<rparr>)"
  using assms by (subst retryLoop.simps) simp

lemma retryLoop_failure_last:
  assumes "store (calls st) = Failure msg" and "rc + 1 = MAX_RETRIES"
  shows "retryLoop store onProgress tbl payload pk totalN batchNum totalBatches rc st
           = Some (st\<lparr>calls := calls st + 1,
                      trace := trace st @ [Upsert tbl payload pk],
                      failedBatches := failedBatches st @ [(batchNum, msg)]\<rparr>)"
proof -
  have "rc < MAX_RETRIES" "\<not> rc + 1 < MAX_RETRIES" using assms by simp_all
  then show ?thesis
    using assms retryLoop_done [of store onProgress tbl payload pk totalN batchNum totalBatches]
    by (subst retryLoop.simps) simp
qed

lemma retryLoop_three_failures:
  assumes "store (calls st) = Failure m1"
    and "store (calls st + 1) = Failure m2"
    and "store (calls st + 2) = Failure m3"
  shows "retryLoop store onProgress tbl payload pk totalN batchNum totalBatches 0 st
           = Some (st\<lparr>calls := calls st + 3,
                      trace := trace st @ [Upsert tbl payload pk, Delay 1000,
                                           Upsert tbl payload pk, Delay 2000,
                                           Upsert tbl payload pk],
                      failedBatches := failedBatches st @ [(batchNum, m3)]\<rparr>)"
  using assms
  by (simp add: retryLoop_failure_again retryLoop_failure_last MAX_RETRIES_def)


lemma batchLoop_step:
  assumes "i < length ds"
    and "retryLoop store onProgress tbl
           (map (\<lambda>item. processRecordToSupabase item tbl) (take 100 (drop i ds)))
           (if ft = ''users'' then ''username'' else ''id'') (length ds) (i div 100 + 1) tb 0
           (st\<lparr>trace := trace st @ progressEvent onProgress (successCount st) (length ds)
                                      (i div 100 + 1) tb\<rparr>) = Some st2"
  shows "batchLoop store onProgress ft tbl ds tb i st
           = batchLoop store onProgress ft tbl ds tb (i + 100)
               (if i + 100 < length ds then st2\<lparr>trace := trace st2 @ [Delay 200]\<rparr> else st2)"
  using assms by (subst batchLoop.simps) (simp add: BATCH_SIZE_def Let_def)

lemma batchLoop_end:
  "length ds \<le> i \<Longrightarrow> batchLoop store onProgress ft tbl ds tb i st = Some st"
  by (subst batchLoop.simps) simp

lemma bulk_second_batch_fails:
  assumes len: "length ds = 250"
    and tbl: "tableMap frontendTable = Some supabaseTable"
    and s0: "store 0 = Rows r1"
    and s1: "store 1 = Failure m1"
    and s2: "store 2 = Failure m2"
    and s3: "store 3 = Failure m3"
    and s4: "store 4 = Rows r3"
  shows "bulkUpsertSupabaseRecords frontendTable (Some ds) onProgress store
           = Some (\<lparr>status = ''partial'', count = Some (length r1 + length r3),
                    message = Some (showNat (length r1 + length r3)
                                    @ ''/250 uploaded. 1 batches failed.'')\<rparr>,
                   \<lparr>successCount = length r1 + length r3,
                    failedBatches = [(2, m3)],
                    calls = 5,
                    trace =
                      (let pk = (if frontendTable = ''users'' then ''username'' else ''id'');
                           batch1 = map (\<lambda>item. processRecordToSupabase item supabaseTable) (take 100 ds);
                           batch2 = map (\<lambda>item. processRecordToSupabase item supabaseTable) (take 100 (drop 100 ds));
                           batch3 = map (\<lambda>item. processRecordToSupabase item supabaseTable) (drop 200 ds)
                       in progressEvent onProgress 0 250 1 3
                          @ [Upsert supabaseTable batch1 pk]
                          @ progressEvent onProgress (length r1) 250 1 3
                          @ [Delay 200]
                          @ progressEvent onProgress (length r1) 250 2 3
                          @ [Upsert supabaseTable batch2 pk, Delay 1000,
                             Upsert supabaseTable batch2 pk, Delay 2000,
                             Upsert supabaseTable batch2 pk]
                          @ [Delay 200]
                          @ progressEvent onProgress (length r1) 250 3 3
                          @ [Upsert supabaseTable batch3 pk]
                          @ progressEvent onProgress (length r1 + length r3) 250 3 3
                          @ progressEvent onProgress (length r1 + length r3) 250 3 3)\<rparr>)"
proof -
  let ?pk = "if frontendTable = ''users'' then ''username'' else ''id''"
  let ?proc = "\<lambda>item. processRecordToSupabase item supabaseTable"
  let ?P = "progressEvent onProgress"
  let ?loop = "batchLoop store onProgress frontendTable supabaseTable ds 3"
  define a0 where "a0 = initialState\<lparr>trace := trace initialState @ ?P (successCount initialState) (length ds) (0 div 100 + 1) 3\<rparr>"
  define a1 where "a1 = a0\<lparr>calls := calls a0 + 1, successCount := successCount a0 + length r1,
       trace := trace a0 @ [Upsert supabaseTable (map ?proc (take 100 (drop 0 ds))) ?pk]
                 @ ?P (successCount a0 + length r1) (length ds) (0 div 100 + 1) 3\<rparr>"
  define a2 where "a2 = a1\<lparr>trace := trace a1 @ [Delay 200]\<rparr>"
  define b0 where "b0 = a2\<lparr>trace := trace a2 @ ?P (successCount a2) (length ds) (100 div 100 + 1) 3\<rparr>"
  define b1 where "b1 = b0\<lparr>calls := calls b0 + 3,
       trace := trace b0 @ [Upsert supabaseTable (map ?proc (take 100 (drop 100 ds))) ?pk, Delay 1000,
                            Upsert supabaseTable (map ?proc (take 100 (drop 100 ds))) ?pk, Delay 2000,
                            Upsert supabaseTable (map ?proc (take 100 (drop 100 ds))) ?pk],
       failedBatches := failedBatches b0 @ [(100 div 100 + 1, m3)]\<rparr>"
  define b2 where "b2 = b1\<lparr>trace := trace b1 @ [Delay 200]\<rparr>"
  define c0 where "c0 = b2\<lparr>trace := trace b2 @ ?P (successCount b2) (length ds) (200 div 100 + 1) 3\<rparr>"
  define c1 where "c1 = c0\<lparr>calls := calls c0 + 1, successCount := successCount c0 + length r3,
       trace := trace c0 @ [Upsert supabaseTable (map ?proc (take 100 (drop 200 ds))) ?pk]
                 @ ?P (successCount c0 + length r3) (length ds) (200 div 100 + 1) 3\<rparr>"
  have ca0: "calls a0 = 0" by (simp add: a0_def initialState_def)
  have cb0: "calls b0 = 1" by (simp add: b0_def a2_def a1_def ca0)
  have cc0: "calls c0 = 4" by (simp add: c0_def b2_def b1_def cb0)
  have r1: "retryLoop store onProgress supabaseTable (map ?proc (take 100 (drop 0 ds))) ?pk
              (length ds) (0 div 100 + 1) 3 0 a0 = Some a1"
    unfolding a1_def using s0 by (intro retryLoop_rows) (simp_all add: ca0 MAX_RETRIES_def)
  have r2: "retryLoop store onProgress supabaseTable (map ?proc (take 100 (drop 100 ds))) ?pk
              (length ds) (100 div 100 + 1) 3 0 b0 = Some b1"
  proof -
    have f1: "store (calls b0) = Failure m1" using s1 by (simp add: cb0)
    have f2: "store (calls b0 + 1) = Failure m2" using s2 by (simp add: cb0 eval_nat_numeral)
    have f3: "store (calls b0 + 2) = Failure m3" using s3 by (simp add: cb0 eval_nat_numeral)
    show ?thesis unfolding b1_def by (rule retryLoop_three_failures [OF f1 f2 f3])
  qed
  have r3: "retryLoop store onProgress supabaseTable (map ?proc (take 100 (drop 200 ds))) ?pk
              (length ds) (200 div 100 + 1) 3 0 c0 = Some c1"
    unfolding c1_def using s4 by (intro retryLoop_rows) (simp_all add: cc0 MAX_RETRIES_def)
  have step1: "?loop 0 initialState = ?loop 100 a2"
    using batchLoop_step [of 0 ds store onProgress supabaseTable frontendTable 3 initialState a1]
      r1 len by (simp add: a0_def a2_def)
  have step2: "?loop 100 a2 = ?loop 200 b2"
    using batchLoop_step [of 100 ds store onProgress supabaseTable frontendTable 3 a2 b1]
      r2 len by (simp add: b0_def b2_def)
  have step3: "?loop 200 b2 = ?loop 300 c1"
    using batchLoop_step [of 200 ds store onProgress supabaseTable frontendTable 3 b2 c1]
      r3 len by (simp add: c0_def)
  have fin: "?loop 300 c1 = Some c1"
    by (rule batchLoop_end) (simp add: len)
  have loop: "?loop 0 initialState = Some c1"
    by (simp only: step1 step2 step3 fin)
  have tb: "(length ds + BATCH_SIZE - 1) div BATCH_SIZE = 3"
    by (simp add: len BATCH_SIZE_def)
  have d3: "take 100 (drop 200 ds) = drop 200 ds"
    by (simp add: len)
  have c1_eq: "c1 = \<lparr>successCount = length r1 + length r3, failedBatches = [(2, m3)], calls = 5,
       trace = ?P 0 250 1 3 @ [Upsert supabaseTable (map ?proc (take 100 ds)) ?pk]
          @ ?P (length r1) 250 1 3 @ [Delay 200] @ ?P (length r1) 250 2 3
          @ [Upsert supabaseTable (map ?proc (take 100 (drop 100 ds))) ?pk, Delay 1000,
             Upsert supabaseTable (map ?proc (take 100 (drop 100 ds))) ?pk, Delay 2000,
             Upsert supabaseTable (map ?proc (take 100 (drop 100 ds))) ?pk]
          @ [Delay 200] @ ?P (length r1) 250 3 3
          @ [Upsert supabaseTable (map ?proc (drop 200 ds)) ?pk]
          @ ?P (length r1 + length r3) 250 3 3\<rparr>"
    by (simp add: c1_def c0_def b2_def b1_def b0_def a2_def a1_def a0_def initialState_def len d3
        numeral_2_eq_2 numeral_3_eq_3)
  have ne: "length ds \<noteq> 0"
    by (simp add: len)
  have fb: "failedBatches c1 = [(2, m3)]" "successCount c1 = length r1 + length r3"
    by (simp_all add: c1_eq)
  have "bulkUpsertSupabaseRecords frontendTable (Some ds) onProgress store
          = Some (\<lparr>status = ''partial'', count = Some (length r1 + length r3),
                   message = Some (showNat (length r1 + length r3)
                                   @ ''/250 uploaded. 1 batches failed.'')\<rparr>,
                  c1\<lparr>trace := trace c1 @ ?P (length r1 + length r3) 250 3 3\<rparr>)"
    unfolding bulkUpsertSupabaseRecords_def
    by (simp only: tbl option.case ne if_False tb loop Let_def)
       (simp add: fb len showNat_250 showNat_1)
  then show ?thesis
    by (simp add: c1_eq Let_def split del: if_split)
qed

lemma showNat_150: "showNat 150 = ''150''"
  by (simp add: showNat.simps digitChar_def)


lemma tableMap_bomRecords: "tableMap ''bomRecords'' = Some ''bom''"
  by (simp add: tableMap_def)

text \<open>
  Claim C10. Bulk persistence called for a known table with a missing or an empty record
  list returns the success outcome with count 0 at once: no upsert is issued (no call of
  the store, an empty trace) and the progress callback is not invoked.
\<close>

theorem bulk_empty_returns_success:
  assumes "tableMap frontendTable = Some supabaseTable"
  shows "bulkUpsertSupabaseRecords frontendTable None onProgress store
           = Some (\<lparr>status = ''success'', count = Some 0, message = None\<rparr>,
                   \<lparr>successCount = 0, failedBatches = [], calls = 0, trace = []\<rparr>)
       \<and> bulkUpsertSupabaseRecords frontendTable (Some []) onProgress store
           = Some (\<lparr>status = ''success'', count = Some 0, message = None\<rparr>,
                   \<lparr>successCount = 0, failedBatches = [], calls = 0, trace = []\<rparr>)"
  using assms by (simp add: bulkUpsertSupabaseRecords_def successOutcome_def initialState_def)

theorem bulk_empty_returns_success_witness:
  "tableMap ''bomRecords'' = Some ''bom''
   \<and> bulkUpsertSupabaseRecords ''bomRecords'' None True (demoStore ''timeout'')
       = Some (\<lparr>status = ''success'', count = Some 0, message = None\<rparr>,
               \<lparr>successCount = 0, failedBatches = [], calls = 0, trace = []\<rparr>)
   \<and> bulkUpsertSupabaseRecords ''bomRecords'' (Some []) True (demoStore ''timeout'')
       = Some (\<lparr>status = ''success'', count = Some 0, message = None\<rparr>,
               \<lparr>successCount = 0, failedBatches = [], calls = 0, trace = []\<rparr>)"
  using bulk_empty_returns_success [OF tableMap_bomRecords, of True "demoStore ''timeout''"]
    tableMap_bomRecords by simp

text \<open>
  Claim C2, as the code has it. For 250 records of a known table the run issues three
  batches (records 1 to 100, 101 to 200, 201 to 250). When the store accepts the first
  call, fails the next three (the three attempts of batch 2) and accepts the fifth, the
  function waits 1000 ms and 2000 ms between the attempts of batch 2 and 200 ms after
  batches 1 and 2, still sends batch 3, and returns status \<open>partial\<close> with \<open>count\<close> the
  number of rows the store returned for batches 1 and 3 and the message
  \<open>"<count>/250 uploaded. 1 batches failed."\<close>. Batch 2's index and the error message of
  its last attempt are kept in the local list \<open>failedBatches\<close>, which is not part of the
  returned object.
\<close>

theorem bulk_partial:
  assumes len: "length ds = 250"
    and tbl: "tableMap frontendTable = Some supabaseTable"
    and s0: "store 0 = Rows r1"
    and s1: "store 1 = Failure m1"
    and s2: "store 2 = Failure m2"
    and s3: "store 3 = Failure m3"
    and s4: "store 4 = Rows r3"
  shows "bulkUpsertSupabaseRecords frontendTable (Some ds) onProgress store
           = Some (\<lparr>status = ''partial'', count = Some (length r1 + length r3),
                    message = Some (showNat (length r1 + length r3)
                                    @ ''/250 uploaded. 1 batches failed.'')\<rparr>,
                   \<lparr>successCount = length r1 + length r3,
                    failedBatches = [(2, m3)],
                    calls = 5,
                    trace =
                      (let pk = (if frontendTable = ''users'' then ''username'' else ''id'');
                           batch1 = map (\<lambda>item. processRecordToSupabase item supabaseTable) (take 100 ds);
                           batch2 = map (\<lambda>item. processRecordToSupabase item supabaseTable) (take 100 (drop 100 ds));
                           batch3 = map (\<lambda>item. processRecordToSupabase item supabaseTable) (drop 200 ds)
                       in progressEvent onProgress 0 250 1 3
                          @ [Upsert supabaseTable batch1 pk]
                          @ progressEvent onProgress (length r1) 250 1 3
                          @ [Delay 200]
                          @ progressEvent onProgress (length r1) 250 2 3
                          @ [Upsert supabaseTable batch2 pk, Delay 1000,
                             Upsert supabaseTable batch2 pk, Delay 2000,
                             Upsert supabaseTable batch2 pk]
                          @ [Delay 200]
                          @ progressEvent onProgress (length r1) 250 3 3
                          @ [Upsert supabaseTable batch3 pk]
                          @ progressEvent onProgress (length r1 + length r3) 250 3 3
                          @ progressEvent onProgress (length r1 + length r3) 250 3 3)\<rparr>)"
  using assms by (rule bulk_second_batch_fails)


theorem bulk_partial_witness:
  "length (replicate 250 demoRecord) = 250
   \<and> tableMap ''bomRecords'' = Some ''bom''
   \<and> demoStore ''timeout'' 0 = Rows (replicate 100 demoRecord)
   \<and> demoStore ''timeout'' 1 = Failure ''timeout''
   \<and> demoStore ''timeout'' 2 = Failure ''timeout''
   \<and> demoStore ''timeout'' 3 = Failure ''timeout''
   \<and> demoStore ''timeout'' 4 = Rows (replicate 50 demoRecord)
   \<and> map_option fst (bulkUpsertSupabaseRecords ''bomRecords'' (Some (replicate 250 demoRecord)) False
                        (demoStore ''timeout''))
       = Some \<lparr>status = ''partial'', count = Some 150,
               message = Some ''150/250 uploaded. 1 batches failed.''\<rparr>"
proof -
  have h: "length (replicate 250 demoRecord) = 250" "tableMap ''bomRecords'' = Some ''bom''"
    "demoStore ''timeout'' 0 = Rows (replicate 100 demoRecord)"
    "demoStore ''timeout'' 1 = Failure ''timeout''"
    "demoStore ''timeout'' 2 = Failure ''timeout''"
    "demoStore ''timeout'' 3 = Failure ''timeout''"
    "demoStore ''timeout'' 4 = Rows (replicate 50 demoRecord)"
    by (simp_all add: demoStore_def tableMap_def)
  show ?thesis
    using h bulk_partial [OF h, where onProgress = False] by (simp add: showNat_150)
qed


text \<open>
  Claim C2 as stated fails: the returned object carries \<open>status\<close>, \<open>count\<close> and
  \<open>message\<close> only. Two runs whose second batch fails with different error messages
  return the same object, and its message does not contain the error message.
\<close>

theorem outcome_has_failedBatches_counterexample:
  "map_option fst (bulkUpsertSupabaseRecords ''bomRecords'' (Some (replicate 250 demoRecord)) True
                     (demoStore ''timeout''))
     = Some \<lparr>status = ''partial'', count = Some 150,
             message = Some ''150/250 uploaded. 1 batches failed.''\<rparr>
   \<and> map_option fst (bulkUpsertSupabaseRecords ''bomRecords'' (Some (replicate 250 demoRecord)) True
                       (demoStore ''timeout''))
     = map_option fst (bulkUpsertSupabaseRecords ''bomRecords'' (Some (replicate 250 demoRecord)) True
                         (demoStore ''duplicate key''))
   \<and> \<not> includes_js ''150/250 uploaded. 1 batches failed.'' ''timeout''"
proof -
  have h: "length (replicate 250 demoRecord) = 250" "tableMap ''bomRecords'' = Some ''bom''"
    "demoStore m 0 = Rows (replicate 100 demoRecord)"
    "demoStore m 1 = Failure m"
    "demoStore m 2 = Failure m"
    "demoStore m 3 = Failure m"
    "demoStore m 4 = Rows (replicate 50 demoRecord)" for m
    by (simp_all add: demoStore_def tableMap_def)
  have "map_option fst (bulkUpsertSupabaseRecords ''bomRecords'' (Some (replicate 250 demoRecord)) True
                     (demoStore m))
     = Some \<lparr>status = ''partial'', count = Some 150,
             message = Some ''150/250 uploaded. 1 batches failed.''\<rparr>" for m
    using bulk_second_batch_fails [OF h, where onProgress = True] by (simp add: showNat_150)
  then show ?thesis by (simp only: simp_thms) simp
qed

section \<open>Key casing at the store boundary\<close>

lemma of_char_lowerChar:
  "isUpperAZ c \<Longrightarrow> (of_char (lowerChar c) :: nat) = of_char c + 32"
  by (simp add: lowerChar_def isUpperAZ_def)

lemma lowerChar_isLower: "isUpperAZ c \<Longrightarrow> isLowerAZ (lowerChar c)"
  by (simp add: isLowerAZ_def of_char_lowerChar) (simp add: isUpperAZ_def)

lemma upper_lowerChar: "isUpperAZ c \<Longrightarrow> upperChar (lowerChar c) = c"
  by (simp add: upperChar_def lowerChar_isLower of_char_lowerChar)

lemma upper_not_sep: "isUpperAZ c \<Longrightarrow> c \<noteq> CHR ''-'' \<and> c \<noteq> CHR ''_''"
  by (auto simp: isUpperAZ_def)

lemma lower_not_sep: "isLowerAZ c \<Longrightarrow> c \<noteq> CHR ''-'' \<and> c \<noteq> CHR ''_''"
  by (auto simp: isLowerAZ_def)

lemma upperChar_underscore: "upperChar (CHR ''_'') = CHR ''_''"
  by (simp add: upperChar_def isLowerAZ_def)

lemma toCamelCase_plain:
  "c \<noteq> CHR ''-'' \<Longrightarrow> c \<noteq> CHR ''_'' \<Longrightarrow> toCamelCase (c # s) = c # toCamelCase s"
  by (cases s) simp_all

lemma toCamelCase_group:
  "isUpperAZ c \<Longrightarrow> toCamelCase (CHR ''_'' # lowerChar c # s) = c # toCamelCase s"
  using upper_not_sep [of c]
  by (auto simp: lowerChar_isLower toUpperCase_def upperChar_underscore upper_lowerChar)

lemma toSnakeCase_Cons:
  "toSnakeCase (c # cs) =
     (if isUpperAZ c then CHR ''_'' # lowerChar c # toSnakeCase cs else c # toSnakeCase cs)"
  by (simp add: toSnakeCase_def)

lemma toSnakeCase_Nil: "toSnakeCase [] = []"
  by (simp add: toSnakeCase_def)

lemma camel_snake: "lettersOnly k \<Longrightarrow> toCamelCase (toSnakeCase k) = k"
proof (induction k)
  case Nil
  then show ?case by (simp add: toSnakeCase_Nil)
next
  case (Cons c cs)
  then have IH: "toCamelCase (toSnakeCase cs) = cs" and c: "isUpperAZ c \<or> isLowerAZ c"
    by (simp_all add: lettersOnly_def)
  show ?case
  proof (cases "isUpperAZ c")
    case True
    then show ?thesis by (simp only: toSnakeCase_Cons if_True toCamelCase_group IH)
  next
    case False
    with c have "isLowerAZ c" by simp
    then have "c \<noteq> CHR ''-''" "c \<noteq> CHR ''_''"
      using lower_not_sep [of c] by simp_all
    then show ?thesis
      using False by (simp add: toSnakeCase_Cons toCamelCase_plain IH del: toCamelCase.simps)
  qed
qed

lemma splitOn_plain: "sep \<notin> set w \<Longrightarrow> splitOn sep w = [w]"
  by (induction w) auto

lemma splitOn_append:
  "sep \<notin> set w \<Longrightarrow> splitOn sep (w @ sep # rest) = w # splitOn sep rest"
  by (induction w) auto

lemma split_join:
  "ss \<noteq> [] \<Longrightarrow> \<forall>s \<in> set ss. sep \<notin> set s \<Longrightarrow> splitOn sep (joinStr [sep] ss) = ss"
proof (induction ss)
  case Nil
  then show ?case by simp
next
  case (Cons x xs)
  show ?case
  proof (cases xs)
    case Nil
    with Cons.prems show ?thesis by (simp add: splitOn_plain)
  next
    case (Cons y ys)
    with Cons.IH Cons.prems show ?thesis by (simp add: splitOn_append)
  qed
qed

lemma setf_new: "k \<notin> fst ` set acc \<Longrightarrow> setf acc k v = acc @ [(k, v)]"
  by (induction acc) auto

lemma fold_setf_map:
  "distinct (map fst acc @ map (\<lambda>(k, v). fst (F k v)) r) \<Longrightarrow>
   fold (\<lambda>(k, v) acc. setf acc (fst (F k v)) (snd (F k v))) r acc
     = acc @ map (\<lambda>(k, v). F k v) r"
proof (induction r arbitrary: acc)
  case Nil
  then show ?case by simp
next
  case (Cons p r)
  obtain k v where p: "p = (k, v)" by (cases p)
  from Cons.prems have new: "fst (F k v) \<notin> fst ` set acc"
    by (auto simp: p)
  have d: "distinct (map fst (acc @ [F k v]) @ map (\<lambda>(k, v). fst (F k v)) r)"
    using Cons.prems by (auto simp: p)
  show ?case
    using Cons.IH [OF d] by (simp add: p setf_new [OF new])
qed

lemma snake_key_eq:
  assumes "lettersOnly k" and "lettersOnly k'" and "toSnakeCase k = toSnakeCase k'"
  shows "k = k'"
proof -
  have "k = toCamelCase (toSnakeCase k)"
    by (simp only: camel_snake [OF assms(1)])
  also have "\<dots> = toCamelCase (toSnakeCase k')"
    by (simp only: assms(3))
  also have "\<dots> = k'"
    by (simp only: camel_snake [OF assms(2)])
  finally show ?thesis .
qed

lemma lettersOnly_name [simp]: "lettersOnly ''name''" "lettersOnly ''status''" "lettersOnly ''category''"
  by (simp_all add: lettersOnly_def isUpperAZ_def isLowerAZ_def)

lemma snake_name [simp]:
  "toSnakeCase ''name'' = ''name''" "toSnakeCase ''status'' = ''status''"
  "toSnakeCase ''category'' = ''category''"
  by (simp_all add: toSnakeCase_def isUpperAZ_def)

lemma snake_fixed_key:
  assumes "lettersOnly k" and "lettersOnly d" and "toSnakeCase d = d"
  shows "(toSnakeCase k = d) = (k = d)"
proof
  assume "toSnakeCase k = d"
  then have "toSnakeCase k = toSnakeCase d" by (simp only: assms(3))
  then show "k = d" by (rule snake_key_eq [OF assms(1) assms(2)])
next
  assume "k = d"
  then show "toSnakeCase k = d" by (simp only: assms(3))
qed

lemma snake_is_default_key:
  assumes "lettersOnly k"
  shows "(toSnakeCase k = ''name'') = (k = ''name'')"
    and "(toSnakeCase k = ''status'') = (k = ''status'')"
    and "(toSnakeCase k = ''category'') = (k = ''category'')"
  by (rule snake_fixed_key [OF assms], simp, simp)+

lemma joinStr_nonempty:
  "ss \<noteq> [] \<Longrightarrow> \<forall>s \<in> set ss. s \<noteq> [] \<Longrightarrow> joinStr sep ss \<noteq> []"
proof (induction ss)
  case Nil
  then show ?case by simp
next
  case (Cons x xs)
  then show ?case by (cases xs) simp_all
qed

lemma join_js_strings: "join_js (map Str ss) = joinStr '','' ss"
  by (simp add: join_js_def comp_def)

lemma commaFreeString_D:
  "commaFreeString x \<Longrightarrow> \<exists>s. x = Str s \<and> s \<noteq> [] \<and> CHR '','' \<notin> set s"
  by (cases x) (simp_all add: commaFreeString_def)

lemma commaFreeStrings_D:
  "list_all commaFreeString xs \<Longrightarrow>
   \<exists>ss. xs = map Str ss \<and> (\<forall>s \<in> set ss. s \<noteq> [] \<and> CHR '','' \<notin> set s)"
proof (induction xs)
  case Nil
  then show ?case by simp
next
  case (Cons x xs)
  from Cons.prems have "commaFreeString x" and "list_all commaFreeString xs"
    by simp_all
  from commaFreeString_D [OF this(1)] obtain s
    where s: "x = Str s" "s \<noteq> []" "CHR '','' \<notin> set s" by blast
  from Cons.IH [OF \<open>list_all commaFreeString xs\<close>] obtain ss
    where ss: "xs = map Str ss" "\<forall>s \<in> set ss. s \<noteq> [] \<and> CHR '','' \<notin> set s" by blast
  have a: "x # xs = map Str (s # ss)" using s(1) ss(1) by simp
  have b: "\<forall>t \<in> set (s # ss). t \<noteq> [] \<and> CHR '','' \<notin> set t" using s(2,3) ss(2) by simp
  show ?case by (rule exI [of _ "s # ss"]) (rule conjI [OF a b])
qed

lemma stringListValue_D:
  assumes "stringListValue v"
  obtains ss where "v = Arr (map Str ss)" "ss \<noteq> []" "\<forall>s \<in> set ss. s \<noteq> [] \<and> CHR '','' \<notin> set s"
proof -
  from assms obtain xs where v: "v = Arr xs" and ne: "xs \<noteq> []"
    and all: "list_all commaFreeString xs"
    by (cases v) (simp_all add: stringListValue_def)
  from commaFreeStrings_D [OF all] obtain ss
    where ss: "xs = map Str ss" "\<forall>s \<in> set ss. s \<noteq> [] \<and> CHR '','' \<notin> set s" by blast
  have n: "ss \<noteq> []" using ne ss(1) by simp
  have e: "v = Arr (map Str ss)" using v ss(1) by simp
  show thesis by (rule that [OF e n ss(2)])
qed

lemma listFields_not_default:
  "k \<in> set listFields \<Longrightarrow> k \<noteq> ''name'' \<and> k \<noteq> ''status'' \<and> k \<noteq> ''category''"
  by (auto simp: listFields_def)

lemma field_roundtrip:
  assumes k: "lettersOnly k"
    and ne: "k = ''name'' \<or> k = ''status'' \<or> k = ''category'' \<Longrightarrow> \<not> emptyValue v"
    and ls: "k \<in> set listFields \<Longrightarrow> stringListValue v"
  shows "fromSupabaseField (fst (toSupabaseField k v)) (snd (toSupabaseField k v)) = (k, v)"
proof (cases "k \<in> set listFields")
  case True
  from ls [OF True] obtain ss where v: "v = Arr (map Str ss)" and ss: "ss \<noteq> []"
    "\<forall>s \<in> set ss. s \<noteq> [] \<and> CHR '','' \<notin> set s"
    by (rule stringListValue_D)
  have j: "joinStr '','' ss \<noteq> []" using ss by (intro joinStr_nonempty) auto
  have sp: "splitOn (CHR '','') (joinStr '','' ss) = ss"
    using ss by (intro split_join) auto
  have to: "toSupabaseField k (Arr (map Str ss)) = (toSnakeCase k, Str (joinStr '','' ss))"
    using True j listFields_not_default [OF True]
    by (simp add: toSupabaseField_def join_js_strings snake_is_default_key [OF k])
  show ?thesis
    using True j by (simp add: v to fromSupabaseField_def camel_snake [OF k] sp)
next
  case False
  have v1: "(case v of Arr xs \<Rightarrow> if k \<in> set listFields then Str (join_js xs) else v | _ \<Rightarrow> v) = v"
    using False by (simp split: jsval.splits)
  have to: "toSupabaseField k v = (toSnakeCase k, v)"
  proof (cases "k = ''name'' \<or> k = ''status'' \<or> k = ''category''")
    case True
    from ne [OF True] have "v \<noteq> Null" "v \<noteq> Undefined" "v \<noteq> Str []"
      by (simp_all add: emptyValue_def)
    then show ?thesis
      by (simp add: toSupabaseField_def v1 Let_def)
  next
    case False
    then show ?thesis
      by (simp add: toSupabaseField_def v1 Let_def snake_is_default_key [OF k])
  qed
  show ?thesis
    using False by (simp add: to fromSupabaseField_def camel_snake [OF k] split: jsval.splits)
qed

lemma toSupabaseField_key: "fst (toSupabaseField k v) = toSnakeCase k"
  by (simp add: toSupabaseField_def Let_def)

lemma fromSupabaseField_key: "fst (fromSupabaseField k v) = toCamelCase k"
  by (simp add: fromSupabaseField_def Let_def)

lemma snake_keys_distinct:
  assumes "distinct (map fst record)" and "list_all (\<lambda>(k, v). lettersOnly k) record"
  shows "distinct (map (\<lambda>(k, v). fst (toSupabaseField k v)) record)"
proof -
  have eq: "map (\<lambda>(k, v). fst (toSupabaseField k v)) record = map toSnakeCase (map fst record)"
    by (simp add: toSupabaseField_key case_prod_unfold)
  have "inj_on toSnakeCase (set (map fst record))"
  proof (rule inj_onI)
    fix a b assume "a \<in> set (map fst record)" "b \<in> set (map fst record)"
      and e: "toSnakeCase a = toSnakeCase b"
    then have "lettersOnly a" "lettersOnly b"
      using assms(2) by (auto simp: list_all_iff)
    then show "a = b" using e by (rule snake_key_eq)
  qed
  with assms(1) have "distinct (map toSnakeCase (map fst record))"
    by (subst distinct_map) (rule conjI)
  then show ?thesis
    by (simp only: eq)
qed

lemma to_fold:
  assumes "distinct (map fst record)" and "list_all (\<lambda>(k, v). lettersOnly k) record"
  shows "fold (\<lambda>(key, val) acc. setf acc (fst (toSupabaseField key val)) (snd (toSupabaseField key val)))
           record [] = map (\<lambda>(k, v). toSupabaseField k v) record"
  using fold_setf_map [of "[]" toSupabaseField "record"] snake_keys_distinct [OF assms]
  by simp

lemma truthy_field_present:
  "truthy (fld record k) \<Longrightarrow> \<exists>v. (k, v) \<in> set record \<and> truthy v"
  by (auto simp: fld_def split: option.splits dest: map_of_SomeD)

lemma fld_of_member:
  "distinct (map fst ob) \<Longrightarrow> (k, v) \<in> set ob \<Longrightarrow> fld ob k = v"
  by (simp add: fld_def)

lemma truthy_not_empty: "truthy v \<Longrightarrow> \<not> emptyValue v"
  by (auto simp: emptyValue_def)

lemma default_field_unchanged:
  assumes "k = ''name'' \<or> k = ''status'' \<or> k = ''category''" and "\<not> emptyValue v"
  shows "toSupabaseField k v = (k, v)"
proof -
  have nl: "k \<notin> set listFields" using assms(1) by (auto simp: listFields_def)
  have v1: "(case v of Arr xs \<Rightarrow> if k \<in> set listFields then Str (join_js xs) else v | _ \<Rightarrow> v) = v"
    using nl by (simp split: jsval.splits)
  have sk: "toSnakeCase k = k" using assms(1) by auto
  from assms(2) have "v \<noteq> Null" "v \<noteq> Undefined" "v \<noteq> Str []"
    by (simp_all add: emptyValue_def)
  then show ?thesis
    by (simp add: toSupabaseField_def v1 Let_def sk)
qed

lemma processed_keeps_truthy:
  assumes d: "distinct (map fst record)" and l: "list_all (\<lambda>(k, v). lettersOnly k) record"
    and k: "k = ''name'' \<or> k = ''status'' \<or> k = ''category''"
    and t: "truthy (fld record k)"
  shows "truthy (fld (map (\<lambda>(k, v). toSupabaseField k v) record) k)"
proof -
  from truthy_field_present [OF t] obtain v where v: "(k, v) \<in> set record" "truthy v"
    by blast
  have "toSupabaseField k v = (k, v)"
    by (rule default_field_unchanged [OF k truthy_not_empty [OF v(2)]])
  then have m: "(k, v) \<in> set (map (\<lambda>(k, v). toSupabaseField k v) record)"
    using v(1) by (force simp: image_iff)
  have dd: "distinct (map fst (map (\<lambda>(k, v). toSupabaseField k v) record))"
    using snake_keys_distinct [OF d l] by (simp add: comp_def case_prod_unfold)
  show ?thesis
    using fld_of_member [OF dd m] v(2) by simp
qed

lemma to_record:
  assumes "roundTripRecord record tableName"
  shows "processRecordToSupabase record tableName = map (\<lambda>(k, v). toSupabaseField k v) record"
proof -
  from assms have d: "distinct (map fst record)" and l: "list_all (\<lambda>(k, v). lettersOnly k) record"
    and it: "tableName = ''items'' \<Longrightarrow> truthy (fld record ''name'')"
    and ma: "tableName = ''machines'' \<Longrightarrow> truthy (fld record ''status'')"
    by (simp_all add: roundTripRecord_def statedRecord_def)
  have a: "tableName = ''items'' \<Longrightarrow> truthy (fld (map (\<lambda>(k, v). toSupabaseField k v) record) ''name'')"
    by (rule processed_keeps_truthy [OF d l _ it]) simp_all
  have b: "tableName = ''machines'' \<Longrightarrow> truthy (fld (map (\<lambda>(k, v). toSupabaseField k v) record) ''status'')"
    by (rule processed_keeps_truthy [OF d l _ ma]) simp_all
  show ?thesis
    unfolding processRecordToSupabase_def to_fold [OF d l] Let_def
    using a b by auto
qed

lemma from_fold:
  assumes "roundTripRecord record tableName"
  shows "processRecordFromSupabase (map (\<lambda>(k, v). toSupabaseField k v) record) = record"
proof -
  from assms have d: "distinct (map fst record)" and l: "list_all (\<lambda>(k, v). lettersOnly k) record"
    and ne: "list_all (\<lambda>(k, v). (k = ''name'' \<or> k = ''status'' \<or> k = ''category'') \<longrightarrow> \<not> emptyValue v) record"
    and ls: "list_all (\<lambda>(k, v). k \<in> set listFields \<longrightarrow> stringListValue v) record"
    by (simp_all add: roundTripRecord_def statedRecord_def)
  let ?to = "map (\<lambda>(k, v). toSupabaseField k v) record"
  have rt: "\<And>p. p \<in> set record \<Longrightarrow>
      (\<lambda>(k, v). fromSupabaseField k v) ((\<lambda>(k, v). toSupabaseField k v) p) = p"
  proof -
    fix p assume p: "p \<in> set record"
    obtain k v where kv: "p = (k, v)" by (cases p)
    have k: "lettersOnly k" using l p kv by (auto simp: list_all_iff)
    have n: "k = ''name'' \<or> k = ''status'' \<or> k = ''category'' \<Longrightarrow> \<not> emptyValue v"
      using ne p kv by (auto simp: list_all_iff)
    have s: "k \<in> set listFields \<Longrightarrow> stringListValue v"
      using ls p kv by (auto simp: list_all_iff)
    show "(\<lambda>(k, v). fromSupabaseField k v) ((\<lambda>(k, v). toSupabaseField k v) p) = p"
      using field_roundtrip [OF k n s] by (simp add: kv case_prod_unfold)
  qed
  have rec_eq: "map (\<lambda>(k, v). fromSupabaseField k v) ?to = record"
    using rt by (simp add: map_idI)
  have keys: "map (\<lambda>(k, v). fst (fromSupabaseField k v)) ?to = map fst record"
  proof -
    have "map (\<lambda>(k, v). fst (fromSupabaseField k v)) ?to
            = map fst (map (\<lambda>(k, v). fromSupabaseField k v) ?to)"
      by (simp add: case_prod_unfold)
    then show ?thesis by (simp only: rec_eq)
  qed
  have "fold (\<lambda>(key, val) acc. setf acc (fst (fromSupabaseField key val)) (snd (fromSupabaseField key val)))
          ?to [] = [] @ map (\<lambda>(k, v). fromSupabaseField k v) ?to"
    by (rule fold_setf_map) (simp only: keys list.map append_Nil d)
  then show ?thesis
    unfolding processRecordFromSupabase_def by (simp only: rec_eq append_Nil)
qed

text \<open>
  Claim C9, as the code has it. Translating a record to the store representation
  (snake-case keys, the four list-valued fields joined by commas) and back (camel-case
  keys, those fields split on commas) returns the record itself, for every record whose
  keys are letters only, whose \<open>name\<close>, \<open>status\<close> and \<open>category\<close> fields are non-empty where
  present, whose list-valued fields are non-empty arrays of non-empty comma-free strings
  where present, and which has a name that reads true when the table is \<open>items\<close> and a
  status that reads true when the table is \<open>machines\<close>.
\<close>

theorem key_casing_round_trip:
  assumes "roundTripRecord record tableName"
  shows "processRecordFromSupabase (processRecordToSupabase record tableName) = record"
  by (simp only: to_record [OF assms] from_fold [OF assms])

theorem key_casing_round_trip_witness:
  "roundTripRecord demoItem ''items''
   \<and> processRecordToSupabase demoItem ''items''
       = [(''id'', Str ''IT-9''), (''name'', Str ''Bolt''), (''part_number'', Str ''PN-55''),
          (''stock_quantity'', Num 12), (''allowed_menus'', Str ''dashboard,assets'')]
   \<and> processRecordFromSupabase (processRecordToSupabase demoItem ''items'') = demoItem"
proof -
  have h: "roundTripRecord demoItem ''items''"
    by code_simp
  have e: "processRecordToSupabase demoItem ''items''
       = [(''id'', Str ''IT-9''), (''name'', Str ''Bolt''), (''part_number'', Str ''PN-55''),
          (''stock_quantity'', Num 12), (''allowed_menus'', Str ''dashboard,assets'')]"
    by code_simp
  show ?thesis
    using key_casing_round_trip [OF h] h e by simp
qed

text \<open>
  Claim C9 as stated fails: the translation to the store depends on the table. A machine
  record without a status and an item record without a name meet every condition of the
  claim, and come back from the round trip with the added fields \<open>status = Working\<close> and
  \<open>name = Unnamed Item\<close>.
\<close>

theorem key_casing_round_trip_counterexample:
  "statedRecord demoMachineRecord
   \<and> processRecordFromSupabase (processRecordToSupabase demoMachineRecord ''machines'')
       = [(''id'', Str ''M-1''), (''category'', Str ''Pump''), (''status'', Str ''Working'')]
   \<and> processRecordFromSupabase (processRecordToSupabase demoMachineRecord ''machines'')
       \<noteq> demoMachineRecord
   \<and> statedRecord demoItemRecord
   \<and> processRecordFromSupabase (processRecordToSupabase demoItemRecord ''items'')
       = [(''id'', Str ''IT-1''), (''unit'', Str ''pcs''), (''name'', Str ''Unnamed Item'')]
   \<and> processRecordFromSupabase (processRecordToSupabase demoItemRecord ''items'')
       \<noteq> demoItemRecord"
  by code_simp

section \<open>Header detection: the first row with two keyword cells\<close>

lemma startsWith_iff: "startsWith s k = (\<exists>q. s = k @ q)"
  by (induction s k rule: startsWith.induct) auto

lemma includes_js_iff: "includes_js s k = (\<exists>p q. s = p @ k @ q)"
proof (induction s)
  case Nil
  then show ?case by simp
next
  case (Cons c cs)
  show ?case
  proof
    assume "includes_js (c # cs) k"
    then consider "startsWith (c # cs) k" | "includes_js cs k" by auto
    then show "\<exists>p q. c # cs = p @ k @ q"
    proof cases
      case 1
      then obtain q where "c # cs = k @ q" by (auto simp: startsWith_iff)
      then have "c # cs = [] @ k @ q" by simp
      then show ?thesis by blast
    next
      case 2
      then obtain p q where "cs = p @ k @ q" using Cons.IH by auto
      then have "c # cs = (c # p) @ k @ q" by simp
      then show ?thesis by blast
    qed
  next
    assume "\<exists>p q. c # cs = p @ k @ q"
    then obtain p q where e: "c # cs = p @ k @ q" by blast
    show "includes_js (c # cs) k"
    proof (cases p)
      case Nil
      with e have "startsWith (c # cs) k" by (auto simp: startsWith_iff)
      then show ?thesis by simp
    next
      case (Cons a p')
      with e have "cs = p' @ k @ q" by simp
      then have "includes_js cs k" using Cons.IH by blast
      then show ?thesis by simp
    qed
  qed
qed

lemma keywordHits_count:
  "length (keywordHits keys row) = length (filter (containsKeyword keys) row)"
  by (simp add: keywordHits_def containsKeyword_def [abs_def] filter_map comp_def list_ex_iff
      includes_js_iff)

lemma scanHeader_first:
  assumes "j < length rows" and "2 \<le> length (keywordHits keys (rows ! j))"
    and "\<forall>i < j. length (keywordHits keys (rows ! i)) < 2"
  shows "scanHeader keys rows r = Some (r + j)"
  using assms
proof (induction rows arbitrary: r j)
  case Nil
  then show ?case by simp
next
  case (Cons row rest)
  show ?case
  proof (cases j)
    case 0
    with Cons.prems show ?thesis by simp
  next
    case (Suc j')
    from Cons.prems(3) Suc have h0: "length (keywordHits keys row) < 2" by auto
    have a: "j' < length rest" using Cons.prems(1) Suc by simp
    have b: "2 \<le> length (keywordHits keys (rest ! j'))" using Cons.prems(2) Suc by simp
    have c: "\<forall>i < j'. length (keywordHits keys (rest ! i)) < 2"
    proof (intro allI impI)
      fix i assume "i < j'"
      then have "Suc i < j" using Suc by simp
      with Cons.prems(3) have "length (keywordHits keys ((row # rest) ! Suc i)) < 2" by blast
      then show "length (keywordHits keys (rest ! i)) < 2" by simp
    qed
    from Cons.IH [OF a b c, of "Suc r"] h0 Suc show ?thesis by simp
  qed
qed

lemma scanHeader_none:
  "\<forall>i < length rows. length (keywordHits keys (rows ! i)) < 2 \<Longrightarrow> scanHeader keys rows r = None"
proof (induction rows arbitrary: r)
  case Nil
  then show ?case by simp
next
  case (Cons row rest)
  from Cons.prems have h0: "length (keywordHits keys row) < 2" by auto
  have "\<forall>i < length rest. length (keywordHits keys (rest ! i)) < 2"
  proof (intro allI impI)
    fix i assume "i < length rest"
    then have "Suc i < length (row # rest)" by simp
    with Cons.prems have "length (keywordHits keys ((row # rest) ! Suc i)) < 2" by blast
    then show "length (keywordHits keys (rest ! i)) < 2" by simp
  qed
  from Cons.IH [OF this] h0 show ?case by simp
qed

lemma detectHeaderRow_first:
  assumes "r < length rows" and "r < 10"
    and "2 \<le> length (filter (containsKeyword keys) (rows ! r))"
    and "\<forall>i < r. length (filter (containsKeyword keys) (rows ! i)) < 2"
  shows "detectHeaderRow keys rows = r"
proof -
  have a: "r < length (take 10 rows)" using assms(1,2) by simp
  have b: "2 \<le> length (keywordHits keys (take 10 rows ! r))"
    using assms(2,3) by (simp add: keywordHits_count)
  have c: "\<forall>i < r. length (keywordHits keys (take 10 rows ! i)) < 2"
    using assms(2,4) by (simp add: keywordHits_count)
  show ?thesis
    using scanHeader_first [OF a b c, of 0] by (simp add: detectHeaderRow_def)
qed

lemma detectHeaderRow_fallback:
  assumes "\<forall>i. i < length rows \<and> i < 10 \<longrightarrow> length (filter (containsKeyword keys) (rows ! i)) < 2"
  shows "detectHeaderRow keys rows = 0"
proof -
  have "\<forall>i < length (take 10 rows). length (keywordHits keys (take 10 rows ! i)) < 2"
    using assms by (simp add: keywordHits_count)
  from scanHeader_none [OF this] show ?thesis by (simp add: detectHeaderRow_def)
qed

text \<open>
  Claim C6, as the code has it. Each import path lower-cases and trims every cell of the
  first ten rows and counts the cells containing a keyword of its own list
  (requests and stock: id, date, qty, item, machine, unit, status; assets, breakdowns and
  bill of materials: id, name, qty, machine, item, part, serial, brand, model; together the
  twelve keywords of the specification). The first row, top down, with at least two such
  cells is selected; when no row among the first ten qualifies the result is row 0.
\<close>

theorem header_detector_per_import_path:
  "(r < length rows \<and> r < 10
      \<and> 2 \<le> length (filter (containsKeyword historyKeywords) (rows ! r))
      \<and> (\<forall>i < r. length (filter (containsKeyword historyKeywords) (rows ! i)) < 2)
      \<longrightarrow> detectHeaderHistory rows = r)
   \<and> ((\<forall>i. i < length rows \<and> i < 10
            \<longrightarrow> length (filter (containsKeyword historyKeywords) (rows ! i)) < 2)
      \<longrightarrow> detectHeaderHistory rows = 0)
   \<and> (r < length rows \<and> r < 10
      \<and> 2 \<le> length (filter (containsKeyword assetKeywords) (rows ! r))
      \<and> (\<forall>i < r. length (filter (containsKeyword assetKeywords) (rows ! i)) < 2)
      \<longrightarrow> detectHeaderAssets rows = r)
   \<and> ((\<forall>i. i < length rows \<and> i < 10
            \<longrightarrow> length (filter (containsKeyword assetKeywords) (rows ! i)) < 2)
      \<longrightarrow> detectHeaderAssets rows = 0)
   \<and> set historyKeywords \<union> set assetKeywords = set specKeywords"
proof (intro conjI impI)
  assume "r < length rows \<and> r < 10
      \<and> 2 \<le> length (filter (containsKeyword historyKeywords) (rows ! r))
      \<and> (\<forall>i < r. length (filter (containsKeyword historyKeywords) (rows ! i)) < 2)"
  then show "detectHeaderHistory rows = r"
    unfolding detectHeaderHistory_def by (intro detectHeaderRow_first) simp_all
next
  assume "\<forall>i. i < length rows \<and> i < 10
            \<longrightarrow> length (filter (containsKeyword historyKeywords) (rows ! i)) < 2"
  then show "detectHeaderHistory rows = 0"
    unfolding detectHeaderHistory_def by (rule detectHeaderRow_fallback)
next
  assume "r < length rows \<and> r < 10
      \<and> 2 \<le> length (filter (containsKeyword assetKeywords) (rows ! r))
      \<and> (\<forall>i < r. length (filter (containsKeyword assetKeywords) (rows ! i)) < 2)"
  then show "detectHeaderAssets rows = r"
    unfolding detectHeaderAssets_def by (intro detectHeaderRow_first) simp_all
next
  assume "\<forall>i. i < length rows \<and> i < 10
            \<longrightarrow> length (filter (containsKeyword assetKeywords) (rows ! i)) < 2"
  then show "detectHeaderAssets rows = 0"
    unfolding detectHeaderAssets_def by (rule detectHeaderRow_fallback)
next
  show "set historyKeywords \<union> set assetKeywords = set specKeywords"
    by (simp add: historyKeywords_def assetKeywords_def specKeywords_def insert_commute)
qed

text \<open>
  Claim C6 as stated fails: neither import path scans for the twelve keywords. The requests
  and stock import does not know \<open>name\<close> and \<open>brand\<close>, the asset import does not know
  \<open>date\<close> and \<open>unit\<close>; each falls back to row 0 on a grid whose second row the
  twelve-keyword detector selects.
\<close>

theorem header_detector_counterexample:
  "detectHeaderHistory gridNameBrand = 0 \<and> specHeaderDetector gridNameBrand = 1
   \<and> detectHeaderAssets gridDateUnit = 0 \<and> specHeaderDetector gridDateUnit = 1"
  by code_simp

theorem header_detector_per_import_path_witness:
  "length (filter (containsKeyword historyKeywords) (gridDateUnit ! 0)) = 0
   \<and> length (filter (containsKeyword historyKeywords) (gridDateUnit ! 1)) = 2
   \<and> detectHeaderHistory gridDateUnit = 1
   \<and> detectHeaderHistory [[Str ''Asset report'']] = 0
   \<and> length (filter (containsKeyword assetKeywords) (gridNameBrand ! 0)) = 0
   \<and> length (filter (containsKeyword assetKeywords) (gridNameBrand ! 1)) = 2
   \<and> detectHeaderAssets gridNameBrand = 1
   \<and> detectHeaderAssets [[Str ''Asset report'']] = 0"
proof -
  have h1: "length (keywordHits historyKeywords [Str ''Asset report'']) = 0"
    "length (keywordHits historyKeywords [Str ''Date'', Str ''Unit'']) = 2"
    "length (keywordHits assetKeywords [Str ''Asset report'']) = 0"
    "length (keywordHits assetKeywords [Str ''Name'', Str ''Brand'']) = 2"
    by code_simp+
  have a: "1 < length gridDateUnit \<and> (1::nat) < 10
      \<and> 2 \<le> length (filter (containsKeyword historyKeywords) (gridDateUnit ! 1))
      \<and> (\<forall>i < 1. length (filter (containsKeyword historyKeywords) (gridDateUnit ! i)) < 2)"
    using h1 by (simp add: gridDateUnit_def keywordHits_count)
  have b: "\<forall>i. i < length [[Str ''Asset report'']] \<and> i < 10
          \<longrightarrow> length (filter (containsKeyword historyKeywords) ([[Str ''Asset report'']] ! i)) < 2"
    using h1 by (simp add: keywordHits_count)
  have c: "1 < length gridNameBrand \<and> (1::nat) < 10
      \<and> 2 \<le> length (filter (containsKeyword assetKeywords) (gridNameBrand ! 1))
      \<and> (\<forall>i < 1. length (filter (containsKeyword assetKeywords) (gridNameBrand ! i)) < 2)"
    using h1 by (simp add: gridNameBrand_def keywordHits_count)
  have d: "\<forall>i. i < length [[Str ''Asset report'']] \<and> i < 10
          \<longrightarrow> length (filter (containsKeyword assetKeywords) ([[Str ''Asset report'']] ! i)) < 2"
    using h1 by (simp add: keywordHits_count)
  from header_detector_per_import_path [of 1 gridDateUnit] a
  have r1: "detectHeaderHistory gridDateUnit = 1" by blast
  from header_detector_per_import_path [of 1 "[[Str ''Asset report'']]"] b
  have r2: "detectHeaderHistory [[Str ''Asset report'']] = 0" by blast
  from header_detector_per_import_path [of 1 gridNameBrand] c
  have r3: "detectHeaderAssets gridNameBrand = 1" by blast
  from header_detector_per_import_path [of 1 "[[Str ''Asset report'']]"] d
  have r4: "detectHeaderAssets [[Str ''Asset report'']] = 0" by blast
  have e: "length (filter (containsKeyword historyKeywords) (gridDateUnit ! 0)) = 0"
    "length (filter (containsKeyword historyKeywords) (gridDateUnit ! 1)) = 2"
    "length (filter (containsKeyword assetKeywords) (gridNameBrand ! 0)) = 0"
    "length (filter (containsKeyword assetKeywords) (gridNameBrand ! 1)) = 2"
    using h1 by (simp_all add: gridDateUnit_def gridNameBrand_def keywordHits_count)
  show ?thesis
    using e r1 r2 r3 r4 by simp
qed

section \<open>Objects: reading after writing\<close>

lemma map_of_setf: "map_of (setf ob k v) = (map_of ob)(k \<mapsto> v)"
  by (induction ob) (auto simp: fun_eq_iff)

lemma fld_setf: "fld (setf ob k v) k' = (if k' = k then v else fld ob k')"
  by (simp add: fld_def map_of_setf)

lemma keys_setf: "fst ` set (setf ob k v) = insert k (fst ` set ob)"
proof -
  have "fst ` set (setf ob k v) = dom (map_of (setf ob k v))"
    by (simp only: dom_map_of_conv_image_fst)
  also have "\<dots> = insert k (dom (map_of ob))"
    by (simp add: map_of_setf)
  also have "\<dots> = insert k (fst ` set ob)"
    by (simp only: dom_map_of_conv_image_fst)
  finally show ?thesis .
qed

lemma distinct_setf: "distinct (map fst ob) \<Longrightarrow> distinct (map fst (setf ob k v))"
proof (induction ob)
  case Nil
  then show ?case by simp
next
  case (Cons a ob)
  obtain k' v' where a: "a = (k', v')" by (cases a)
  show ?case
  proof (cases "k' = k")
    case True
    with Cons.prems show ?thesis by (simp add: a)
  next
    case False
    have "k' \<notin> fst ` set (setf ob k v)"
      using Cons.prems False by (simp add: a keys_setf)
    with Cons False show ?thesis by (simp add: a)
  qed
qed

lemma map_of_fold_setf:
  "distinct (map fst b) \<Longrightarrow>
   map_of (fold (\<lambda>(k, v) acc. setf acc k v) b acc) = map_of acc ++ map_of b"
proof (induction b arbitrary: acc)
  case Nil
  then show ?case by simp
next
  case (Cons a b)
  obtain k v where a: "a = (k, v)" by (cases a)
  from Cons.prems have d: "distinct (map fst b)" and nk: "map_of b k = None"
    by (auto simp: a map_of_eq_None_iff)
  have "fold (\<lambda>(k, v) acc. setf acc k v) (a # b) acc
          = fold (\<lambda>(k, v) acc. setf acc k v) b (setf acc k v)"
    by (simp add: a)
  then have "map_of (fold (\<lambda>(k, v) acc. setf acc k v) (a # b) acc)
          = map_of (setf acc k v) ++ map_of b"
    by (simp only: Cons.IH [OF d])
  also have "\<dots> = map_of acc ++ map_of (a # b)"
  proof (rule ext)
    fix x
    show "(map_of (setf acc k v) ++ map_of b) x = (map_of acc ++ map_of (a # b)) x"
      using nk by (cases "x = k") (simp_all add: a map_of_setf map_add_def split: option.splits)
  qed
  finally show ?case .
qed

lemma fld_Cons: "fld ((k, v) # ob) k' = (if k' = k then v else fld ob k')"
  by (simp add: fld_def)

lemma truthy_fld_key: "truthy (fld ob k) \<Longrightarrow> k \<in> fst ` set ob"
proof -
  assume t: "truthy (fld ob k)"
  then obtain v where "map_of ob k = Some v"
    by (cases "map_of ob k") (simp_all add: fld_def)
  then have "(k, v) \<in> set ob" by (rule map_of_SomeD)
  then show ?thesis by force
qed

lemma fld_spread_present:
  assumes "distinct (map fst b)" and "k \<in> fst ` set b"
  shows "fld (spread a b) k = fld b k"
proof -
  have m: "map_of (spread a b) = map_of (fold (\<lambda>(k, v) acc. setf acc k v) a []) ++ map_of b"
    unfolding spread_def by (rule map_of_fold_setf [OF assms(1)])
  from assms(2) obtain v where "map_of b k = Some v"
    by (cases "map_of b k") (simp_all add: map_of_eq_None_iff)
  then show ?thesis
    by (simp add: fld_def m map_add_def)
qed

lemma fld_spread_truthy:
  "distinct (map fst b) \<Longrightarrow> truthy (fld b k) \<Longrightarrow> fld (spread a b) k = fld b k"
  by (simp add: fld_spread_present truthy_fld_key)

section \<open>Normalised rows are objects\<close>

lemma distinct_commonHeader:
  "distinct (map fst obj) \<Longrightarrow> distinct (map fst (commonHeader tb p header cell obj))"
  by (simp add: commonHeader_def Let_def distinct_setf)

lemma distinct_bomHeader:
  "distinct (map fst (fst st)) \<Longrightarrow> distinct (map fst (fst (bomHeader p header cell st)))"
  by (simp add: bomHeader_def Let_def distinct_setf)

lemma distinct_headerStep:
  "distinct (map fst (fst st)) \<Longrightarrow> distinct (map fst (fst (headerStep tb p row hi st)))"
  by (simp add: headerStep_def Let_def distinct_commonHeader distinct_bomHeader)

lemma distinct_fold_headerStep:
  "distinct (map fst (fst st)) \<Longrightarrow> distinct (map fst (fst (fold (headerStep tb p row) his st)))"
  by (induction his arbitrary: st) (simp_all add: distinct_headerStep)

lemma distinct_normalizeRow:
  "distinct (map fst (fst (normalizeRow tb p headers row rowIndex failed)))"
  unfolding normalizeRow_def by (rule distinct_fold_headerStep) simp

lemma distinct_assignBomId:
  "distinct (map fst obj) \<Longrightarrow> distinct (map fst (assignBomId e p rowIndex obj))"
  by (simp add: assignBomId_def Let_def distinct_setf split: option.splits)

lemma distinct_assignMachineId:
  "distinct (map fst obj) \<Longrightarrow> distinct (map fst (assignMachineId e p rowIndex obj))"
  by (simp add: assignMachineId_def Let_def distinct_setf split: option.splits)

lemma distinct_identifyRow:
  "distinct (map fst obj) \<Longrightarrow> distinct (map fst (identifyRow e tb p rowIndex obj))"
  by (simp add: identifyRow_def Let_def distinct_assignBomId distinct_assignMachineId)

lemma distinct_withDefaults:
  "distinct (map fst obj) \<Longrightarrow> distinct (map fst (withDefaults tb obj))"
  by (cases tb) (simp_all add: withDefaults_def Let_def distinct_setf)

lemma withDefaults_id: "fld (withDefaults tb obj) ''id'' = fld obj ''id''"
  by (cases tb) (simp_all add: withDefaults_def Let_def fld_setf)

lemma distinct_stockField:
  "distinct (map fst obj) \<Longrightarrow> distinct (map fst (stockField k val obj))"
  by (simp add: stockField_def Let_def distinct_setf)

lemma distinct_fold_stockField:
  "distinct (map fst obj) \<Longrightarrow>
   distinct (map fst (fold (\<lambda>k obj. stockField k (fld row k) obj) ks obj))"
  by (induction ks arbitrary: obj) (simp_all add: distinct_stockField)

lemma distinct_normalizeStock: "distinct (map fst (normalizeStock row))"
  unfolding normalizeStock_def by (rule distinct_fold_stockField) simp

section \<open>The two lists never share an id\<close>

lemma classifyRow_Add:
  assumes "classifyRow tb p obj = Add ob"
  shows "find (\<lambda>i. strictEq (fld i ''id'') (fld ob ''id'')) (targetList tb p) = None"
  using assms
  by (auto simp: classifyRow_def Let_def split: if_splits option.splits)

lemma classifyRow_Update:
  assumes "distinct (map fst obj)" and "classifyRow tb p obj = Update u"
  shows "find (\<lambda>i. strictEq (fld i ''id'') (fld u ''id'')) (targetList tb p) \<noteq> None"
proof -
  from assms(2) have t: "truthy (fld obj ''id'')"
    by (auto simp: classifyRow_def split: if_splits)
  from assms(2) t obtain ex where
    f: "find (\<lambda>i. strictEq (fld i ''id'') (fld (withDefaults tb obj) ''id'')) (targetList tb p) = Some ex"
    and u: "u = spread ex (withDefaults tb obj)"
    by (auto simp: classifyRow_def Let_def split: if_splits option.splits)
  have "fld u ''id'' = fld (withDefaults tb obj) ''id''"
    unfolding u
    by (rule fld_spread_truthy [OF distinct_withDefaults [OF assms(1)]])
       (simp add: withDefaults_id t)
  with f show ?thesis by simp
qed

lemma processRow_lists:
  assumes "\<forall>ob \<in> set (toAdd res). find (\<lambda>i. strictEq (fld i ''id'') (fld ob ''id'')) (targetList tb p) = None"
    and "\<forall>u \<in> set (toUpdate res). find (\<lambda>i. strictEq (fld i ''id'') (fld u ''id'')) (targetList tb p) \<noteq> None"
  shows "(\<forall>ob \<in> set (toAdd (processRow e tb p headers ri res)).
            find (\<lambda>i. strictEq (fld i ''id'') (fld ob ''id'')) (targetList tb p) = None)
       \<and> (\<forall>u \<in> set (toUpdate (processRow e tb p headers ri res)).
            find (\<lambda>i. strictEq (fld i ''id'') (fld u ''id'')) (targetList tb p) \<noteq> None)"
proof -
  let ?n = "normalizeRow tb p headers (fst ri) (snd ri) (failedItemMatches res)"
  let ?obj = "identifyRow e tb p (snd ri) (fst ?n)"
  have d: "distinct (map fst ?obj)"
    by (rule distinct_identifyRow [OF distinct_normalizeRow])
  show ?thesis
  proof (cases "classifyRow tb p ?obj")
    case (Add ob)
    with assms classifyRow_Add [OF Add] show ?thesis
      by (simp add: processRow_def Let_def)
  next
    case (Update u)
    with assms classifyRow_Update [OF d Update] show ?thesis
      by (simp add: processRow_def Let_def)
  next
    case Skipped
    with assms show ?thesis by (simp add: processRow_def Let_def)
  next
    case Returned
    with assms show ?thesis by (simp add: processRow_def Let_def)
  qed
qed

lemma fold_processRow_lists:
  assumes "\<forall>ob \<in> set (toAdd res). find (\<lambda>i. strictEq (fld i ''id'') (fld ob ''id'')) (targetList tb p) = None"
    and "\<forall>u \<in> set (toUpdate res). find (\<lambda>i. strictEq (fld i ''id'') (fld u ''id'')) (targetList tb p) \<noteq> None"
  shows "(\<forall>ob \<in> set (toAdd (fold (processRow e tb p headers) ris res)).
            find (\<lambda>i. strictEq (fld i ''id'') (fld ob ''id'')) (targetList tb p) = None)
       \<and> (\<forall>u \<in> set (toUpdate (fold (processRow e tb p headers) ris res)).
            find (\<lambda>i. strictEq (fld i ''id'') (fld u ''id'')) (targetList tb p) \<noteq> None)"
  using assms
proof (induction ris arbitrary: res)
  case Nil
  then show ?case by simp
next
  case (Cons ri ris)
  from processRow_lists [OF Cons.prems, of e headers ri]
  have a: "\<forall>ob \<in> set (toAdd (processRow e tb p headers ri res)).
            find (\<lambda>i. strictEq (fld i ''id'') (fld ob ''id'')) (targetList tb p) = None"
    and b: "\<forall>u \<in> set (toUpdate (processRow e tb p headers ri res)).
            find (\<lambda>i. strictEq (fld i ''id'') (fld u ''id'')) (targetList tb p) \<noteq> None"
    by simp_all
  from Cons.IH [OF a b] show ?case by simp
qed

lemma lists_disjoint:
  assumes "\<forall>ob \<in> set added. find (\<lambda>i. strictEq (fld i ''id'') (fld ob ''id'')) existing = None"
    and "\<forall>u \<in> set updated. find (\<lambda>i. strictEq (fld i ''id'') (fld u ''id'')) existing \<noteq> None"
  shows "set (ids added) \<inter> set (ids updated) = {}"
proof (rule ccontr)
  assume "set (ids added) \<inter> set (ids updated) \<noteq> {}"
  then obtain v where "v \<in> set (ids added)" "v \<in> set (ids updated)" by blast
  then obtain ob u where "ob \<in> set added" "fld ob ''id'' = v" "u \<in> set updated" "fld u ''id'' = v"
    by (auto simp: ids_def)
  with assms show False by auto
qed

lemma processImport_disjoint:
  assumes "processImport e p rows tb = Inr res"
  shows "set (ids (toAdd res)) \<inter> set (ids (toUpdate res)) = {}"
proof -
  let ?init = "\<lparr>toAdd = [], toUpdate = [], skippedRows = 0, failedItemMatches = []\<rparr>"
  from assms obtain headers ris where res: "res = fold (processRow e tb p headers) ris ?init"
    by (auto simp: processImport_def Let_def split: if_splits)
  have "(\<forall>ob \<in> set (toAdd res).
            find (\<lambda>i. strictEq (fld i ''id'') (fld ob ''id'')) (targetList tb p) = None)
       \<and> (\<forall>u \<in> set (toUpdate res).
            find (\<lambda>i. strictEq (fld i ''id'') (fld u ''id'')) (targetList tb p) \<noteq> None)"
    unfolding res by (rule fold_processRow_lists) simp_all
  then show ?thesis by (intro lists_disjoint [where existing = "targetList tb p"]) simp_all
qed

lemma reconcileRequest_Add:
  assumes "reconcileRequest e p rowIndex obj = Add ob"
  shows "find (\<lambda>h. strictEq (fld h ''id'') (fld ob ''id'')) (history p) = None"
proof -
  let ?idv = "orElse (fld obj ''id'')
                (Str (''IMP-'' @ showNat (dateNow e rowIndex) @ ''-'' @ randomSuffix e rowIndex))"
  from assms have "ob = requestRecord e p rowIndex obj ?idv (orElse (fld obj ''itemId'') (Str []))
                          (orElse (fld obj ''quantity'') (Num 0))"
    and "find (\<lambda>h. strictEq (fld h ''id'') ?idv) (history p) = None"
    by (auto simp: reconcileRequest_def Let_def split: if_splits option.splits)
  then show ?thesis by (simp add: requestRecord_def fld_Cons)
qed

lemma reconcileRequest_Update:
  assumes "reconcileRequest e p rowIndex obj = Update u"
  shows "find (\<lambda>h. strictEq (fld h ''id'') (fld u ''id'')) (history p) \<noteq> None"
proof -
  let ?idv = "orElse (fld obj ''id'')
                (Str (''IMP-'' @ showNat (dateNow e rowIndex) @ ''-'' @ randomSuffix e rowIndex))"
  from assms have "u = requestRecord e p rowIndex obj ?idv (orElse (fld obj ''itemId'') (Str []))
                          (orElse (fld obj ''quantity'') (Num 0))"
    and "find (\<lambda>h. strictEq (fld h ''id'') ?idv) (history p) \<noteq> None"
    by (auto simp: reconcileRequest_def Let_def split: if_splits option.splits)
  then show ?thesis by (simp add: requestRecord_def fld_Cons)
qed

lemma reconcileStock_Add:
  assumes "reconcileStock p obj = Add ob"
  shows "find (\<lambda>i. strictEq (fld i ''id'') (fld ob ''id'')) (items p) = None"
proof -
  from assms have t: "truthy (fld obj ''id'')"
    by (auto simp: reconcileStock_def split: if_splits)
  show ?thesis
  proof (cases "find (\<lambda>i. strictEq (fld i ''id'') (fld obj ''id'')) (items p)")
    case None
    with assms t have "fld ob ''id'' = fld obj ''id''"
      by (auto simp: reconcileStock_def fld_Cons)
    with None show ?thesis by simp
  next
    case (Some ex)
    with assms t show ?thesis by (simp add: reconcileStock_def)
  qed
qed

lemma reconcileStock_Update:
  assumes "distinct (map fst obj)" and "reconcileStock p obj = Update u"
  shows "find (\<lambda>i. strictEq (fld i ''id'') (fld u ''id'')) (items p) \<noteq> None"
proof -
  from assms(2) have t: "truthy (fld obj ''id'')"
    by (auto simp: reconcileStock_def split: if_splits)
  from assms(2) t obtain ex where
    f: "find (\<lambda>i. strictEq (fld i ''id'') (fld obj ''id'')) (items p) = Some ex"
    and u: "u = spread ex obj"
    by (auto simp: reconcileStock_def split: if_splits option.splits)
  have "fld u ''id'' = fld obj ''id''"
    unfolding u by (rule fld_spread_truthy [OF assms(1) t])
  with f show ?thesis by simp
qed

lemma pushDecision_lists:
  assumes "\<forall>ob \<in> set (fst acc). find (\<lambda>i. strictEq (fld i ''id'') (fld ob ''id'')) existing = None"
    and "\<forall>u \<in> set (snd acc). find (\<lambda>i. strictEq (fld i ''id'') (fld u ''id'')) existing \<noteq> None"
    and "\<And>ob. d = Add ob \<Longrightarrow> find (\<lambda>i. strictEq (fld i ''id'') (fld ob ''id'')) existing = None"
    and "\<And>u. d = Update u \<Longrightarrow> find (\<lambda>i. strictEq (fld i ''id'') (fld u ''id'')) existing \<noteq> None"
  shows "(\<forall>ob \<in> set (fst (pushDecision d acc)).
            find (\<lambda>i. strictEq (fld i ''id'') (fld ob ''id'')) existing = None)
       \<and> (\<forall>u \<in> set (snd (pushDecision d acc)).
            find (\<lambda>i. strictEq (fld i ''id'') (fld u ''id'')) existing \<noteq> None)"
  using assms by (cases d) (simp_all add: pushDecision_def)

lemma requestRow_Inr:
  "normalizeRequest e (fst ri) = Inr obj \<Longrightarrow>
   requestRow e p ri acc = Inr (pushDecision (reconcileRequest e p (snd ri) obj) acc)"
  by (simp add: requestRow_def)

lemma requestRow_Inl:
  "normalizeRequest e (fst ri) = Inl err \<Longrightarrow> requestRow e p ri acc = Inl err"
  by (simp add: requestRow_def)

lemma foldE_requestRow_lists:
  assumes "foldE (requestRow e p) ris acc = Inr acc'"
    and "\<forall>ob \<in> set (fst acc). find (\<lambda>i. strictEq (fld i ''id'') (fld ob ''id'')) (history p) = None"
    and "\<forall>u \<in> set (snd acc). find (\<lambda>i. strictEq (fld i ''id'') (fld u ''id'')) (history p) \<noteq> None"
  shows "(\<forall>ob \<in> set (fst acc').
            find (\<lambda>i. strictEq (fld i ''id'') (fld ob ''id'')) (history p) = None)
       \<and> (\<forall>u \<in> set (snd acc').
            find (\<lambda>i. strictEq (fld i ''id'') (fld u ''id'')) (history p) \<noteq> None)"
  using assms
proof (induction ris arbitrary: acc)
  case Nil
  then show ?case by simp
next
  case (Cons ri ris)
  from Cons.prems(1) have "\<exists>obj. normalizeRequest e (fst ri) = Inr obj"
    by (cases "normalizeRequest e (fst ri)") (simp_all add: requestRow_Inl)
  then obtain obj where n: "normalizeRequest e (fst ri) = Inr obj" by blast
  from Cons.prems(1)
  have rest: "foldE (requestRow e p) ris (pushDecision (reconcileRequest e p (snd ri) obj) acc) = Inr acc'"
    by (simp add: requestRow_Inr [OF n])
  have step: "(\<forall>ob \<in> set (fst (pushDecision (reconcileRequest e p (snd ri) obj) acc)).
            find (\<lambda>i. strictEq (fld i ''id'') (fld ob ''id'')) (history p) = None)
       \<and> (\<forall>u \<in> set (snd (pushDecision (reconcileRequest e p (snd ri) obj) acc)).
            find (\<lambda>i. strictEq (fld i ''id'') (fld u ''id'')) (history p) \<noteq> None)"
    by (rule pushDecision_lists [OF Cons.prems(2) Cons.prems(3)])
       (erule reconcileRequest_Add, erule reconcileRequest_Update)
  from Cons.IH [OF rest] step show ?case by blast
qed

lemma fold_stock_lists:
  assumes "\<forall>ob \<in> set (fst acc). find (\<lambda>i. strictEq (fld i ''id'') (fld ob ''id'')) (items p) = None"
    and "\<forall>u \<in> set (snd acc). find (\<lambda>i. strictEq (fld i ''id'') (fld u ''id'')) (items p) \<noteq> None"
  shows "(\<forall>ob \<in> set (fst (fold (\<lambda>row. pushDecision (reconcileStock p (normalizeStock row))) dat acc)).
            find (\<lambda>i. strictEq (fld i ''id'') (fld ob ''id'')) (items p) = None)
       \<and> (\<forall>u \<in> set (snd (fold (\<lambda>row. pushDecision (reconcileStock p (normalizeStock row))) dat acc)).
            find (\<lambda>i. strictEq (fld i ''id'') (fld u ''id'')) (items p) \<noteq> None)"
  using assms
proof (induction dat arbitrary: acc)
  case Nil
  then show ?case by simp
next
  case (Cons row dat)
  have step: "(\<forall>ob \<in> set (fst (pushDecision (reconcileStock p (normalizeStock row)) acc)).
            find (\<lambda>i. strictEq (fld i ''id'') (fld ob ''id'')) (items p) = None)
       \<and> (\<forall>u \<in> set (snd (pushDecision (reconcileStock p (normalizeStock row)) acc)).
            find (\<lambda>i. strictEq (fld i ''id'') (fld u ''id'')) (items p) \<noteq> None)"
    by (rule pushDecision_lists [OF Cons.prems(1) Cons.prems(2)])
       (erule reconcileStock_Add, erule reconcileStock_Update [OF distinct_normalizeStock])
  then have a: "\<forall>ob \<in> set (fst (pushDecision (reconcileStock p (normalizeStock row)) acc)).
            find (\<lambda>i. strictEq (fld i ''id'') (fld ob ''id'')) (items p) = None"
    and b: "\<forall>u \<in> set (snd (pushDecision (reconcileStock p (normalizeStock row)) acc)).
            find (\<lambda>i. strictEq (fld i ''id'') (fld u ''id'')) (items p) \<noteq> None"
    by simp_all
  from Cons.IH [OF a b] show ?case by simp
qed

lemma handleFileChange_disjoint:
  assumes "handleFileChange e p activeTab rawRows = BulkImport name added updated"
  shows "set (ids added) \<inter> set (ids updated) = {}"
proof (cases activeTab)
  case Requests
  with assms obtain ris acc where f: "foldE (requestRow e p) ris ([], []) = Inr acc"
    and a: "added = fst acc" "updated = snd acc"
    by (auto simp: handleFileChange_def Let_def split: if_splits sum.splits)
  from foldE_requestRow_lists [OF f] show ?thesis
    unfolding a by (intro lists_disjoint [where existing = "history p"]) simp_all
next
  case Tracking
  with assms show ?thesis
    by (auto simp: handleFileChange_def Let_def split: if_splits)
next
  case Stock
  with assms obtain dat where
    a: "added = fst (fold (\<lambda>row. pushDecision (reconcileStock p (normalizeStock row))) dat ([], []))"
       "updated = snd (fold (\<lambda>row. pushDecision (reconcileStock p (normalizeStock row))) dat ([], []))"
    by (auto simp: handleFileChange_def Let_def split: if_splits)
  from fold_stock_lists [of "([], [])" p dat] show ?thesis
    unfolding a by (intro lists_disjoint [where existing = "items p"]) simp_all
qed

text \<open>
  Claim C1, as the code has it. For every run of either import, on any grid and any
  existing collections, no id is both in \<open>toAdd\<close> and in \<open>toUpdate\<close>: a row goes to
  \<open>toUpdate\<close> exactly when the target collection holds a record with its id.
\<close>

theorem change_set_lists_disjoint:
  "(processImport e p rows tb = Inr res
      \<longrightarrow> set (ids (toAdd res)) \<inter> set (ids (toUpdate res)) = {})
   \<and> (handleFileChange e p activeTab rawRows = BulkImport name added updated
      \<longrightarrow> set (ids added) \<inter> set (ids updated) = {})"
  using processImport_disjoint handleFileChange_disjoint by blast

lemma run_gridMachines:
  "processImport demoEnv demoProps gridMachines Machines
     = Inr \<lparr>toAdd = [[(''id'', Str ''M-2''), (''category'', Str ''Crane''),
                       (''status'', Str ''Working''), (''machineLocalNo'', Str [])]],
            toUpdate = [[(''id'', Str ''M-1''), (''category'', Str ''Pump 2''),
                         (''chassisNo'', Str ''CH-1''), (''status'', Str ''Working''),
                         (''machineLocalNo'', Str [])]],
            skippedRows = 0, failedItemMatches = []\<rparr>"
  by code_simp

lemma run_gridStock:
  "handleFileChange demoEnv demoProps Stock gridStock
     = BulkImport ''items''
         [[(''id'', Str ''IT-10''), (''name'', Str ''Nut''), (''stockQuantity'', Num 5),
           (''unit'', Str ''pcs''), (''category'', Str ''General'')]]
         [[(''id'', Str ''IT-9''), (''partNumber'', Str ''PN-55''), (''name'', Str ''Bolt M8''),
           (''stockQuantity'', Num 40)]]"
  by code_simp

theorem change_set_lists_disjoint_witness:
  "processImport demoEnv demoProps gridMachines Machines
     = Inr \<lparr>toAdd = [[(''id'', Str ''M-2''), (''category'', Str ''Crane''),
                       (''status'', Str ''Working''), (''machineLocalNo'', Str [])]],
            toUpdate = [[(''id'', Str ''M-1''), (''category'', Str ''Pump 2''),
                         (''chassisNo'', Str ''CH-1''), (''status'', Str ''Working''),
                         (''machineLocalNo'', Str [])]],
            skippedRows = 0, failedItemMatches = []\<rparr>
   \<and> set (ids [[(''id'', Str ''M-2''), (''category'', Str ''Crane''),
                  (''status'', Str ''Working''), (''machineLocalNo'', Str [])]])
       \<inter> set (ids [[(''id'', Str ''M-1''), (''category'', Str ''Pump 2''),
                      (''chassisNo'', Str ''CH-1''), (''status'', Str ''Working''),
                      (''machineLocalNo'', Str [])]]) = {}
   \<and> handleFileChange demoEnv demoProps Stock gridStock
     = BulkImport ''items''
         [[(''id'', Str ''IT-10''), (''name'', Str ''Nut''), (''stockQuantity'', Num 5),
           (''unit'', Str ''pcs''), (''category'', Str ''General'')]]
         [[(''id'', Str ''IT-9''), (''partNumber'', Str ''PN-55''), (''name'', Str ''Bolt M8''),
           (''stockQuantity'', Num 40)]]
   \<and> set (ids [[(''id'', Str ''IT-10''), (''name'', Str ''Nut''), (''stockQuantity'', Num 5),
                  (''unit'', Str ''pcs''), (''category'', Str ''General'')]])
       \<inter> set (ids [[(''id'', Str ''IT-9''), (''partNumber'', Str ''PN-55''),
                      (''name'', Str ''Bolt M8''), (''stockQuantity'', Num 40)]]) = {}"
proof -
  let ?A = "[[(''id'', Str ''M-2''), (''category'', Str ''Crane''),
              (''status'', Str ''Working''), (''machineLocalNo'', Str [])]]"
  let ?U = "[[(''id'', Str ''M-1''), (''category'', Str ''Pump 2''),
              (''chassisNo'', Str ''CH-1''), (''status'', Str ''Working''),
              (''machineLocalNo'', Str [])]]"
  let ?R = "\<lparr>toAdd = ?A, toUpdate = ?U, skippedRows = 0, failedItemMatches = []\<rparr>"
  let ?A' = "[[(''id'', Str ''IT-10''), (''name'', Str ''Nut''), (''stockQuantity'', Num 5),
               (''unit'', Str ''pcs''), (''category'', Str ''General'')]]"
  let ?U' = "[[(''id'', Str ''IT-9''), (''partNumber'', Str ''PN-55''), (''name'', Str ''Bolt M8''),
               (''stockQuantity'', Num 40)]]"
  note t = change_set_lists_disjoint [where e = demoEnv and p = demoProps and rows = gridMachines
      and tb = Machines and res = ?R and activeTab = Stock and rawRows = gridStock
      and name = "''items''" and added = ?A' and updated = ?U']
  from t run_gridMachines have "set (ids (toAdd ?R)) \<inter> set (ids (toUpdate ?R)) = {}"
    by blast
  then have d1: "set (ids ?A) \<inter> set (ids ?U) = {}"
    by simp
  from t run_gridStock have d2: "set (ids ?A') \<inter> set (ids ?U') = {}"
    by blast
  show ?thesis
    using run_gridMachines run_gridStock d1 d2 by simp
qed

text \<open>
  Claim C1 as stated fails in its second half: every accepted row is pushed, so an id that
  two input rows carry, and that the collection does not hold yet, is twice in \<open>toAdd\<close>.
\<close>

theorem toAdd_repeats_id_counterexample:
  "processImport demoEnv demoProps gridRepeatedMachine Machines
     = Inr \<lparr>toAdd = [[(''id'', Str ''M-7''), (''category'', Str ''Crane''),
                       (''status'', Str ''Working''), (''machineLocalNo'', Str [])],
                      [(''id'', Str ''M-7''), (''category'', Str ''Crane''),
                       (''status'', Str ''Working''), (''machineLocalNo'', Str [])]],
            toUpdate = [], skippedRows = 0, failedItemMatches = []\<rparr>
   \<and> handleFileChange demoEnv demoProps Stock gridRepeatedItem
     = BulkImport ''items''
         [[(''id'', Str ''IT-10''), (''name'', Str ''Nut''), (''stockQuantity'', Num 0),
           (''unit'', Str ''pcs''), (''category'', Str ''General'')],
          [(''id'', Str ''IT-10''), (''name'', Str ''Nut''), (''stockQuantity'', Num 0),
           (''unit'', Str ''pcs''), (''category'', Str ''General'')]]
         []
   \<and> \<not> distinct (ids [[(''id'', Str ''M-7''), (''category'', Str ''Crane''),
                         (''status'', Str ''Working''), (''machineLocalNo'', Str [])],
                        [(''id'', Str ''M-7''), (''category'', Str ''Crane''),
                         (''status'', Str ''Working''), (''machineLocalNo'', Str [])]])"
  by code_simp

section \<open>Ids of bill-of-materials lines\<close>

lemma assignBomId_generated:
  assumes "\<not> truthy (fld obj ''id'')" and "truthy (fld obj ''machineCategory'')"
    and "truthy (fld obj ''itemId'')"
    and "find (bomNaturalKeyMatch obj) (bomRecords p) = None"
  shows "assignBomId e p rowIndex obj =
           (let obj1 = setf obj ''id'' (Str (''BOM-'' @ showNat (dateNow e rowIndex) @ ''-''
                                                @ showNat (random10000 e rowIndex)))
            in if fld obj ''modelNo'' = Undefined then setf obj1 ''modelNo'' (Str []) else obj1)"
  using assms by (simp add: assignBomId_def Let_def fld_setf)


text \<open>
  Claim C7, as the code has it. A bill-of-materials row without an explicit id, with a
  machine name and a resolved item, whose natural key matches no existing record, is given
  the id \<open>BOM-<Date.now()>-<Math.floor(Math.random() * 10000)>\<close>: it is made from the clock
  and the random source at the time the row is processed, not from the natural key.
\<close>

theorem bom_id_from_clock_and_random:
  assumes "\<not> truthy (fld obj ''id'')" and "truthy (fld obj ''machineCategory'')"
    and "truthy (fld obj ''itemId'')"
    and "find (bomNaturalKeyMatch obj) (bomRecords p) = None"
  shows "fld (identifyRow e Bom p rowIndex obj) ''id''
           = Str (''BOM-'' @ showNat (dateNow e rowIndex) @ ''-'' @ showNat (random10000 e rowIndex))"
  by (simp add: identifyRow_def assignBomId_generated [OF assms] Let_def fld_setf)

lemma showNat_small: "showNat 1000 = ''1000''" "showNat 41 = ''41''" "showNat 42 = ''42''"
  by (simp_all add: showNat.simps digitChar_def)

theorem bom_id_from_clock_and_random_witness:
  "\<not> truthy (fld demoBomLine ''id'') \<and> truthy (fld demoBomLine ''machineCategory'')
   \<and> truthy (fld demoBomLine ''itemId'')
   \<and> find (bomNaturalKeyMatch demoBomLine) (bomRecords demoProps) = None
   \<and> fld (identifyRow demoEnv Bom demoProps 0 demoBomLine) ''id'' = Str ''BOM-1000-41''"
proof -
  have h: "\<not> truthy (fld demoBomLine ''id'')" "truthy (fld demoBomLine ''machineCategory'')"
    "truthy (fld demoBomLine ''itemId'')"
    "find (bomNaturalKeyMatch demoBomLine) (bomRecords demoProps) = None"
    by (simp_all add: demoBomLine_def demoProps_def fld_def)
  from bom_id_from_clock_and_random [OF h, of demoEnv 0]
  have "fld (identifyRow demoEnv Bom demoProps 0 demoBomLine) ''id'' = Str ''BOM-1000-41''"
    by (simp add: demoEnv_def showNat_small)
  with h show ?thesis by simp
qed

text \<open>
  Claim C7 as stated fails: two rows of one import with the same machine, model and item,
  none of them known, get different ids when the random source gives different numbers.
\<close>

theorem bom_id_not_from_key_counterexample:
  "processImport demoEnv demoProps gridTwins Bom
     = Inr \<lparr>toAdd = [[(''sortOrder'', Num 0), (''machineCategory'', Str ''Pump''),
                       (''itemId'', Str ''IT-9''), (''quantity'', Num 2),
                       (''id'', Str ''BOM-1000-41''), (''modelNo'', Str [])],
                      [(''sortOrder'', Num 1), (''machineCategory'', Str ''Pump''),
                       (''itemId'', Str ''IT-9''), (''quantity'', Num 2),
                       (''id'', Str ''BOM-1000-42''), (''modelNo'', Str [])]],
            toUpdate = [], skippedRows = 0, failedItemMatches = []\<rparr>"
  by code_simp

section \<open>Importing a bill-of-materials line a second time\<close>










section \<open>References that do not resolve\<close>


















section \<open>Quantities that are not numbers\<close>

















end
